theory Spec2Isabelle
  imports Complex_Main "HOL-Library.Log_Nat"
begin

section \<open>The provider payload as Python sees it\<close>

text \<open>
  \<^verbatim>\<open>data = r.json()\<close> is an arbitrary JSON document decoded into Python values.
  An object is a \<^verbatim>\<open>dict\<close>: an association list in insertion order (the order matters
  to \<^verbatim>\<open>.values()\<close>), whose keys are distinct. Python integers are unbounded.
  A Python \<^verbatim>\<open>float\<close> is modelled by the real number it denotes, and the estimate is
  computed in exact arithmetic; the figures of the pricing pipeline are given a second
  time in binary64 arithmetic, with its rounding, \<^verbatim>\<open>inf\<close> and \<^verbatim>\<open>nan\<close>. The exceptions
  of the source are kept: each is a value of \<open>error\<close>.
\<close>

datatype json =
    JNull
  | JBool bool
  | JInt int
  | JFloat real
  | JStr string
  | JArr "json list"
  | JObj "(string \<times> json) list"

datatype error = AttributeError | TypeError | ValueError | OverflowError

text \<open>
  \<^verbatim>\<open>float(s)\<close> and \<^verbatim>\<open>int(s)\<close> on a string run CPython's own parsers. They are not
  code of this service, so they are parameters of the model; nothing is assumed of them.
\<close>

record py_builtins =
  str_to_float :: "string \<Rightarrow> error + real"
  str_to_int :: "string \<Rightarrow> error + int"

text \<open>
  Sequencing: a statement that raised ends the call, otherwise the next one runs on its value.
\<close>

definition and_then :: "error + 'a \<Rightarrow> ('a \<Rightarrow> error + 'b) \<Rightarrow> error + 'b" where
  "and_then m f = (case m of Inl e \<Rightarrow> Inl e | Inr x \<Rightarrow> f x)"

text \<open>Truth value testing, as \<^verbatim>\<open>or\<close> and \<^verbatim>\<open>if\<close> do it.\<close>

fun truthy :: "json \<Rightarrow> bool" where
  "truthy JNull = False"
| "truthy (JBool b) = b"
| "truthy (JInt n) = (n \<noteq> 0)"
| "truthy (JFloat x) = (x \<noteq> 0)"
| "truthy (JStr s) = (s \<noteq> [])"
| "truthy (JArr xs) = (xs \<noteq> [])"
| "truthy (JObj kvs) = (kvs \<noteq> [])"

text \<open>\<^verbatim>\<open>a or b\<close>\<close>

definition py_or :: "json \<Rightarrow> json \<Rightarrow> json" where
  "py_or a b = (if truthy a then a else b)"

text \<open>\<^verbatim>\<open>d.get(k, default)\<close>: only a dict has the method.\<close>

fun py_get_default :: "json \<Rightarrow> string \<Rightarrow> json \<Rightarrow> error + json" where
  "py_get_default (JObj kvs) k d = Inr (case map_of kvs k of None \<Rightarrow> d | Some v \<Rightarrow> v)"
| "py_get_default _ k d = Inl AttributeError"

text \<open>\<^verbatim>\<open>d.get(k)\<close>\<close>

definition py_get :: "json \<Rightarrow> string \<Rightarrow> error + json" where
  "py_get d k = py_get_default d k JNull"

text \<open>\<^verbatim>\<open>d.values()\<close>\<close>

fun py_values :: "json \<Rightarrow> error + json list" where
  "py_values (JObj kvs) = Inr (map snd kvs)"
| "py_values _ = Inl AttributeError"

text \<open>
  Converting an \<^verbatim>\<open>int\<close> to a \<^verbatim>\<open>float\<close> (in \<^verbatim>\<open>float(n)\<close> and in \<^verbatim>\<open>n * x\<close> with a float
  \<^verbatim>\<open>x\<close>) raises OverflowError when the integer rounds to a magnitude beyond the largest
  double, \<open>2 ^ 1024 - 2 ^ 971\<close>: from the midpoint \<open>2 ^ 1024 - 2 ^ 970\<close> on.
\<close>

definition int_to_float :: "int \<Rightarrow> error + real" where
  "int_to_float n = (if \<bar>n\<bar> < 2 ^ 1024 - 2 ^ 970 then Inr (of_int n) else Inl OverflowError)"

text \<open>\<^verbatim>\<open>float(v)\<close>\<close>

fun py_float :: "py_builtins \<Rightarrow> json \<Rightarrow> error + real" where
  "py_float B JNull = Inl TypeError"
| "py_float B (JBool b) = Inr (if b then 1 else 0)"
| "py_float B (JInt n) = int_to_float n"
| "py_float B (JFloat x) = Inr x"
| "py_float B (JStr s) = str_to_float B s"
| "py_float B (JArr xs) = Inl TypeError"
| "py_float B (JObj kvs) = Inl TypeError"

text \<open>\<^verbatim>\<open>int(v)\<close>: a float is truncated towards zero.\<close>

definition trunc :: "real \<Rightarrow> int" where
  "trunc x = (if 0 \<le> x then \<lfloor>x\<rfloor> else \<lceil>x\<rceil>)"

fun py_int :: "py_builtins \<Rightarrow> json \<Rightarrow> error + int" where
  "py_int B JNull = Inl TypeError"
| "py_int B (JBool b) = Inr (if b then 1 else 0)"
| "py_int B (JInt n) = Inr n"
| "py_int B (JFloat x) = Inr (trunc x)"
| "py_int B (JStr s) = str_to_int B s"
| "py_int B (JArr xs) = Inl TypeError"
| "py_int B (JObj kvs) = Inl TypeError"

text \<open>\<^verbatim>\<open>w >= 2\<close>: numbers compare (a bool is the integer 0 or 1), anything else raises.\<close>

fun py_ge2 :: "json \<Rightarrow> error + bool" where
  "py_ge2 JNull = Inl TypeError"
| "py_ge2 (JBool b) = Inr False"
| "py_ge2 (JInt n) = Inr (2 \<le> n)"
| "py_ge2 (JFloat x) = Inr (2 \<le> x)"
| "py_ge2 (JStr s) = Inl TypeError"
| "py_ge2 (JArr xs) = Inl TypeError"
| "py_ge2 (JObj kvs) = Inl TypeError"

text \<open>
  \<^verbatim>\<open>round(x, nd)\<close> on a float: to the nearest multiple of \<open>10 ^ (- nd)\<close>, a tie going
  to the even one.
\<close>

definition py_round :: "real \<Rightarrow> nat \<Rightarrow> real" where
  "py_round x nd =
     (let s = x * 10 ^ nd;
          f = \<lfloor>s\<rfloor>;
          d = s - of_int f;
          n = (if d < 1 / 2 then f else if 1 / 2 < d then f + 1
               else if even f then f else f + 1)
      in of_int n / 10 ^ nd)"

text \<open>\<^verbatim>\<open>str(n)\<close> of an integer, as the f-strings of the labels format it.\<close>

fun digits :: "nat \<Rightarrow> string" where
  "digits n =
     (if n < 10 then [''0123456789'' ! n]
      else digits (n div 10) @ [''0123456789'' ! (n mod 10)])"

definition py_str_int :: "int \<Rightarrow> string" where
  "py_str_int n = (if n < 0 then CHR ''-'' # digits (nat (- n)) else digits (nat n))"

section \<open>Measurement extraction\<close>

text \<open>The dict \<^verbatim>\<open>totals\<close> of \<^verbatim>\<open>get_results\<close>: each entry holds whatever the payload held.\<close>

record measurement =
  eave_linear_ft :: json
  downspouts :: json
  miters_inside :: json
  miters_outside :: json
  stories_by_direction :: json
  pdf_url :: json

text \<open>Lines 105 to 113; the entries are evaluated in the order of the dict display.\<close>

definition extract_measurement :: "json \<Rightarrow> error + measurement" where
  "extract_measurement data =
     and_then (py_get_default data ''gutterReport'' (JObj [])) (\<lambda>g.
     let gutter = py_or g (JObj []) in
     and_then (py_get gutter ''totalEaveLengthFt'') (\<lambda>eave.
     and_then (py_get gutter ''estimatedDownspouts'') (\<lambda>dsp.
     and_then (py_get gutter ''miterCount'') (\<lambda>mc1.
     and_then (py_get (py_or mc1 (JObj [])) ''inside90'') (\<lambda>mi.
     and_then (py_get gutter ''miterCount'') (\<lambda>mc2.
     and_then (py_get (py_or mc2 (JObj [])) ''outside90'') (\<lambda>mo.
     and_then (py_get gutter ''storiesByDirection'') (\<lambda>st.
     and_then (py_get gutter ''assets'') (\<lambda>assets.
     and_then (py_get (py_or assets (JObj [])) ''pdfUrl'') (\<lambda>pdf.
     Inr \<lparr> eave_linear_ft = py_or eave (JFloat 0),
           downspouts = py_or dsp (JInt 0),
           miters_inside = py_or mi (JInt 0),
           miters_outside = py_or mo (JInt 0),
           stories_by_direction = py_or st (JObj []),
           pdf_url = pdf \<rparr>))))))))))"

section \<open>Pricing\<close>

text \<open>The dict \<^verbatim>\<open>pricing\<close>; the source builds it from literals on every call.\<close>

record pricing =
  price_per_ft :: real
  labor_per_ft :: real
  downspout_each :: real
  miter_each :: real
  pitch_multiplier :: real
  story_multiplier :: real
  overhead_pct :: real
  profit_pct :: real
  sales_tax_pct :: real

definition default_pricing :: pricing where
  "default_pricing =
     \<lparr> price_per_ft = 8.50, labor_per_ft = 5.00, downspout_each = 85.00,
       miter_each = 12.00, pitch_multiplier = 1.10, story_multiplier = 1.00,
       overhead_pct = 0.12, profit_pct = 0.10, sales_tax_pct = 0.00 \<rparr>"

text \<open>
  \<^verbatim>\<open>any(((v or 1) >= 2) for v in ...)\<close>: the generator is consumed from the left and
  \<^verbatim>\<open>any\<close> stops at the first true element, so a later element is never compared.
\<close>

fun any_two_story :: "json list \<Rightarrow> error + bool" where
  "any_two_story [] = Inr False"
| "any_two_story (v # vs) =
     (case py_ge2 (py_or v (JInt 1)) of
        Inl e \<Rightarrow> Inl e
      | Inr True \<Rightarrow> Inr True
      | Inr False \<Rightarrow> any_two_story vs)"

text \<open>Lines 128 to 130: the labor bump, written into \<^verbatim>\<open>pricing\<close>.\<close>

definition bump_story :: "pricing \<Rightarrow> measurement \<Rightarrow> error + pricing" where
  "bump_story p t =
     and_then (py_values (stories_by_direction t)) (\<lambda>vs.
     and_then (any_two_story vs) (\<lambda>hit.
     Inr (if hit then p\<lparr>story_multiplier := 1.10\<rparr> else p)))"

text \<open>The local variables of lines 132 to 144, unrounded.\<close>

record figures =
  eave_ft :: real
  ds :: int
  miters :: int
  ds_amount :: real
  miters_amount :: real
  base_mat :: real
  base_lab :: real
  accessories :: real
  subtotal :: real
  overhead :: real
  pre_profit :: real
  profit :: real
  sales_tax :: real
  total_amt :: real

text \<open>
  \<open>ds_amount\<close> and \<open>miters_amount\<close> are the two products of line 138, which lines 151
  and 152 compute again; each converts an \<^verbatim>\<open>int\<close> to a \<^verbatim>\<open>float\<close>.
\<close>

definition compute_figures :: "py_builtins \<Rightarrow> pricing \<Rightarrow> measurement \<Rightarrow> error + figures" where
  "compute_figures B p t =
     and_then (py_float B (eave_linear_ft t)) (\<lambda>ef.
     and_then (py_int B (downspouts t)) (\<lambda>d.
     and_then (py_int B (miters_inside t)) (\<lambda>mi.
     and_then (py_int B (miters_outside t)) (\<lambda>mo.
     let m = mi + mo;
         bm = ef * price_per_ft p;
         bl = ef * labor_per_ft p * pitch_multiplier p * story_multiplier p in
     and_then (int_to_float d) (\<lambda>df.
     and_then (int_to_float m) (\<lambda>mf.
     let acc = df * downspout_each p + mf * miter_each p;
         sub = bm + bl + acc;
         ovh = sub * overhead_pct p;
         pre = sub + ovh;
         prf = pre * profit_pct p;
         tax = (bm + acc) * sales_tax_pct p;
         tot = pre + prf + tax in
     Inr \<lparr> eave_ft = ef, ds = d, miters = m,
           ds_amount = df * downspout_each p, miters_amount = mf * miter_each p,
           base_mat = bm, base_lab = bl, accessories = acc, subtotal = sub,
           overhead = ovh, pre_profit = pre, profit = prf, sales_tax = tax,
           total_amt = tot \<rparr>))))))"

section \<open>The estimate\<close>

record line_item =
  label :: string
  qty :: "json option"
  uom :: "string option"
  unit_price :: "real option"
  amount :: real

record est_totals =
  totals_subtotal :: real
  totals_total :: real

record estimate =
  inputs :: measurement
  line_items :: "line_item list"
  totals :: est_totals

text \<open>Lines 146 to 158.\<close>

definition build_estimate :: "pricing \<Rightarrow> measurement \<Rightarrow> figures \<Rightarrow> estimate" where
  "build_estimate p t f =
     \<lparr> inputs = t,
       line_items =
         [ \<lparr> label = ''Gutter materials'', qty = Some (JFloat (py_round (eave_ft f) 1)),
             uom = Some ''ft'', unit_price = Some (price_per_ft p),
             amount = py_round (base_mat f) 2 \<rparr>,
           \<lparr> label = ''Labor'', qty = Some (JFloat (py_round (eave_ft f) 1)),
             uom = Some ''ft'', unit_price = Some (labor_per_ft p),
             amount = py_round (base_lab f) 2 \<rparr>,
           \<lparr> label = ''Downspouts ('' @ py_str_int (ds f) @ '')'', qty = Some (JInt (ds f)),
             uom = Some ''ea'', unit_price = Some (downspout_each p),
             amount = py_round (ds_amount f) 2 \<rparr>,
           \<lparr> label = ''Miters ('' @ py_str_int (miters f) @ '')'', qty = Some (JInt (miters f)),
             uom = Some ''ea'', unit_price = Some (miter_each p),
             amount = py_round (miters_amount f) 2 \<rparr>,
           \<lparr> label = ''Overhead'', qty = None, uom = None, unit_price = None,
             amount = py_round (overhead f) 2 \<rparr>,
           \<lparr> label = ''Profit'', qty = None, uom = None, unit_price = None,
             amount = py_round (profit f) 2 \<rparr>,
           \<lparr> label = ''Sales tax'', qty = None, uom = None, unit_price = None,
             amount = py_round (sales_tax f) 2 \<rparr> ],
       totals = \<lparr> totals_subtotal = py_round (subtotal f) 2,
                  totals_total = py_round (total_amt f) 2 \<rparr> \<rparr>"

text \<open>Pricing a measurement record: lines 128 to 158.\<close>

definition price :: "py_builtins \<Rightarrow> pricing \<Rightarrow> measurement \<Rightarrow> error + estimate" where
  "price B p0 t =
     and_then (bump_story p0 t) (\<lambda>p.
     and_then (compute_figures B p t) (\<lambda>f.
     Inr (build_estimate p t f)))"

text \<open>Lines 105 to 158 with the pricing table as an argument.\<close>

definition estimate_with :: "py_builtins \<Rightarrow> pricing \<Rightarrow> json \<Rightarrow> error + estimate" where
  "estimate_with B p0 data =
     and_then (extract_measurement data) (\<lambda>t. price B p0 t)"

text \<open>The body of \<^verbatim>\<open>get_results\<close> after \<^verbatim>\<open>data = r.json()\<close>.\<close>

definition computeEstimate :: "py_builtins \<Rightarrow> json \<Rightarrow> error + estimate" where
  "computeEstimate B data = estimate_with B default_pricing data"

section \<open>Payloads and predicates of the specification\<close>

text \<open>The payload of the specification's concrete scenario.\<close>

definition scenario_payload :: json where
  "scenario_payload =
     JObj [(''gutterReport'', JObj
       [(''totalEaveLengthFt'', JInt 100),
        (''estimatedDownspouts'', JInt 4),
        (''miterCount'', JObj [(''inside90'', JInt 2), (''outside90'', JInt 1)]),
        (''storiesByDirection'', JObj [(''N'', JInt 1), (''S'', JInt 2)])])]"

text \<open>The record that extraction builds when the payload gives nothing.\<close>

definition default_measurement :: measurement where
  "default_measurement =
     \<lparr> eave_linear_ft = JFloat 0, downspouts = JInt 0, miters_inside = JInt 0,
       miters_outside = JInt 0, stories_by_direction = JObj [], pdf_url = JNull \<rparr>"

text \<open>
  The documented shape of a payload (section 4.1 of the specification): every key may be
  missing or null; when present, the eave length is a number, the counts and the story
  counts are integers, the nested values are objects and the asset URL is a string.
\<close>

definition opt_field :: "(json \<Rightarrow> bool) \<Rightarrow> (string \<times> json) list \<Rightarrow> string \<Rightarrow> bool" where
  "opt_field P kvs k = (case map_of kvs k of None \<Rightarrow> True | Some v \<Rightarrow> v = JNull \<or> P v)"

fun is_number :: "json \<Rightarrow> bool" where
  "is_number (JInt n) = True"
| "is_number (JFloat x) = True"
| "is_number _ = False"

fun is_int :: "json \<Rightarrow> bool" where
  "is_int (JInt n) = True"
| "is_int _ = False"

fun is_str :: "json \<Rightarrow> bool" where
  "is_str (JStr s) = True"
| "is_str _ = False"

fun miter_shape :: "json \<Rightarrow> bool" where
  "miter_shape (JObj kvs) = (opt_field is_int kvs ''inside90'' \<and> opt_field is_int kvs ''outside90'')"
| "miter_shape _ = False"

fun stories_shape :: "json \<Rightarrow> bool" where
  "stories_shape (JObj kvs) = list_all (\<lambda>v. v = JNull \<or> is_int v) (map snd kvs)"
| "stories_shape _ = False"

fun assets_shape :: "json \<Rightarrow> bool" where
  "assets_shape (JObj kvs) = opt_field is_str kvs ''pdfUrl''"
| "assets_shape _ = False"

fun gutter_shape :: "json \<Rightarrow> bool" where
  "gutter_shape (JObj kvs) =
     (opt_field is_number kvs ''totalEaveLengthFt'' \<and>
      opt_field is_int kvs ''estimatedDownspouts'' \<and>
      opt_field miter_shape kvs ''miterCount'' \<and>
      opt_field stories_shape kvs ''storiesByDirection'' \<and>
      opt_field assets_shape kvs ''assets'')"
| "gutter_shape _ = False"

fun documented_shape :: "json \<Rightarrow> bool" where
  "documented_shape (JObj kvs) = opt_field gutter_shape kvs ''gutterReport''"
| "documented_shape _ = False"

text \<open>
  The integers of a record that pricing turns into floats: the eave length when it is an
  integer, the downspout count and the sum of the two miter counts.
\<close>

definition fits_float :: "int \<Rightarrow> bool" where
  "fits_float n = (\<bar>n\<bar> < 2 ^ 1024 - 2 ^ 970)"

fun int_of_count :: "json \<Rightarrow> int" where
  "int_of_count (JInt n) = n"
| "int_of_count _ = 0"

definition magnitudes_fit :: "measurement \<Rightarrow> bool" where
  "magnitudes_fit t =
     (fits_float (int_of_count (eave_linear_ft t)) \<and>
      fits_float (int_of_count (downspouts t)) \<and>
      fits_float (int_of_count (miters_inside t) + int_of_count (miters_outside t)))"

text \<open>A payload of the documented shape with a downspout count of \<open>2 ^ 1024\<close>.\<close>

definition huge_count_payload :: json where
  "huge_count_payload = JObj [(''gutterReport'', JObj [(''estimatedDownspouts'', JInt (2 ^ 1024))])]"

text \<open>The data model's constraint on story counts: a mapping to integers, each at least 1.\<close>

fun story_count_ok :: "json \<Rightarrow> bool" where
  "story_count_ok (JInt n) = (1 \<le> n)"
| "story_count_ok _ = False"

fun stories_valid :: "json \<Rightarrow> bool" where
  "stories_valid (JObj kvs) = list_all story_count_ok (map snd kvs)"
| "stories_valid _ = False"

definition zero_story_payload :: json where
  "zero_story_payload = JObj [(''gutterReport'', JObj [(''storiesByDirection'', JObj [(''N'', JInt 0)])])]"

text \<open>
  Replacing the value of \<^verbatim>\<open>gutterReport.assets.pdfUrl\<close> in a payload, everything else
  kept: two payloads that differ only there are \<open>data\<close> and \<open>with_pdf_url u data\<close>.
\<close>

definition map_key :: "string \<Rightarrow> (json \<Rightarrow> json) \<Rightarrow> (string \<times> json) list \<Rightarrow> (string \<times> json) list" where
  "map_key k f kvs = map (\<lambda>(k', v). if k' = k then (k', f v) else (k', v)) kvs"

fun on_obj :: "((string \<times> json) list \<Rightarrow> (string \<times> json) list) \<Rightarrow> json \<Rightarrow> json" where
  "on_obj f (JObj kvs) = JObj (f kvs)"
| "on_obj f v = v"

definition with_pdf_url :: "json \<Rightarrow> json \<Rightarrow> json" where
  "with_pdf_url u data =
     on_obj (map_key ''gutterReport''
       (on_obj (map_key ''assets''
         (on_obj (map_key ''pdfUrl'' (\<lambda>_. u)))))) data"

text \<open>What extraction gives on the scenario payload, and the same measurements on one story.\<close>

definition scenario_measurement :: measurement where
  "scenario_measurement =
     \<lparr> eave_linear_ft = JInt 100, downspouts = JInt 4, miters_inside = JInt 2,
       miters_outside = JInt 1,
       stories_by_direction = JObj [(''N'', JInt 1), (''S'', JInt 2)], pdf_url = JNull \<rparr>"

definition one_story_measurement :: measurement where
  "one_story_measurement =
     scenario_measurement\<lparr>stories_by_direction := JObj [(''N'', JInt 1), (''S'', JNull)]\<rparr>"

definition one_story_payload :: json where
  "one_story_payload =
     JObj [(''gutterReport'', JObj
       [(''totalEaveLengthFt'', JInt 100),
        (''estimatedDownspouts'', JInt 4),
        (''miterCount'', JObj [(''inside90'', JInt 2), (''outside90'', JInt 1)]),
        (''storiesByDirection'', JObj [(''N'', JInt 1), (''S'', JNull)])])]"

text \<open>The default table with a sales tax of 7 percent.\<close>

definition taxed_pricing :: pricing where
  "taxed_pricing = default_pricing\<lparr>sales_tax_pct := 0.07\<rparr>"

text \<open>All nine rates of a pricing table are non-negative.\<close>

definition nonneg_rates :: "pricing \<Rightarrow> bool" where
  "nonneg_rates p =
     (0 \<le> price_per_ft p \<and> 0 \<le> labor_per_ft p \<and> 0 \<le> downspout_each p \<and>
      0 \<le> miter_each p \<and> 0 \<le> pitch_multiplier p \<and> 0 \<le> story_multiplier p \<and>
      0 \<le> overhead_pct p \<and> 0 \<le> profit_pct p \<and> 0 \<le> sales_tax_pct p)"

text \<open>A payload with an asset URL.\<close>

definition report_payload :: json where
  "report_payload =
     JObj [(''gutterReport'', JObj
       [(''totalEaveLengthFt'', JFloat 42.5),
        (''assets'', JObj [(''pdfUrl'', JStr ''a.pdf'')])])]"

text \<open>A parser that rejects every string, for evaluating the model on payloads without strings.\<close>

definition no_strings :: py_builtins where
  "no_strings = \<lparr> str_to_float = (\<lambda>s. Inl ValueError), str_to_int = (\<lambda>s. Inl ValueError) \<rparr>"

section \<open>The figures in binary64 arithmetic\<close>

text \<open>
  \<open>compute_figures\<close> reads lines 132 to 144 in exact arithmetic. The program computes in
  IEEE 754 doubles: every product and sum is rounded to the nearest double, a tie going to
  the even one, a result of magnitude \<open>2 ^ 1024\<close> or more after rounding is an infinity,
  and an infinity times zero is nan. This section gives the same lines in that arithmetic.
\<close>

text \<open>Rounding a real to the nearest integer, a tie going to the even one.\<close>

definition round_half_even :: "real \<Rightarrow> int" where
  "round_half_even q =
     (let f = \<lfloor>q\<rfloor>; d = q - of_int f
      in if d < 1 / 2 then f else if 1 / 2 < d then f + 1
         else if even f then f else f + 1)"

text \<open>
  Rounding a non-negative real to 53 significant bits, on a grid never finer than the
  integers: with \<open>b\<close> the number of bits of the integer part, the grid is \<open>2 ^ (b - 53)\<close>.
\<close>

definition round53 :: "real \<Rightarrow> real" where
  "round53 y =
     (let s = floorlog 2 (nat \<lfloor>y\<rfloor>) - 53
      in of_int (round_half_even (y / 2 ^ s)) * 2 ^ s)"

text \<open>
  Rounding to a double. The doubles are multiples of \<open>2 ^ (- 1074)\<close>, so scaling by
  \<open>2 ^ 1074\<close> turns the grid of the subnormal numbers into the integers, and that of every
  normal binade into a power of two.
\<close>

definition rnd_pos :: "real \<Rightarrow> real" where
  "rnd_pos x = round53 (x * 2 ^ 1074) / 2 ^ 1074"

definition rnd :: "real \<Rightarrow> real" where
  "rnd x = (if x < 0 then - rnd_pos (- x) else rnd_pos x)"

text \<open>A \<^verbatim>\<open>float\<close> of the program: a finite double, an infinity or nan.\<close>

datatype pyfloat = Fin real | PInf | NInf | NaN

text \<open>The double nearest to a real; the float literals of the pricing table are read so.\<close>

definition to_double :: "real \<Rightarrow> pyfloat" where
  "to_double x =
     (let r = rnd x
      in if 2 ^ 1024 \<le> r then PInf else if r \<le> - (2 ^ 1024) then NInf else Fin r)"

text \<open>\<^verbatim>\<open>x * y\<close>, \<^verbatim>\<open>x + y\<close> and \<^verbatim>\<open>x <= y\<close> on floats.\<close>

fun fl_mul :: "pyfloat \<Rightarrow> pyfloat \<Rightarrow> pyfloat" where
  "fl_mul NaN y = NaN"
| "fl_mul x NaN = NaN"
| "fl_mul (Fin a) (Fin b) = to_double (a * b)"
| "fl_mul (Fin a) PInf = (if a = 0 then NaN else if 0 < a then PInf else NInf)"
| "fl_mul (Fin a) NInf = (if a = 0 then NaN else if 0 < a then NInf else PInf)"
| "fl_mul PInf (Fin b) = (if b = 0 then NaN else if 0 < b then PInf else NInf)"
| "fl_mul NInf (Fin b) = (if b = 0 then NaN else if 0 < b then NInf else PInf)"
| "fl_mul PInf PInf = PInf"
| "fl_mul PInf NInf = NInf"
| "fl_mul NInf PInf = NInf"
| "fl_mul NInf NInf = PInf"

fun fl_add :: "pyfloat \<Rightarrow> pyfloat \<Rightarrow> pyfloat" where
  "fl_add NaN y = NaN"
| "fl_add x NaN = NaN"
| "fl_add (Fin a) (Fin b) = to_double (a + b)"
| "fl_add (Fin a) PInf = PInf"
| "fl_add (Fin a) NInf = NInf"
| "fl_add PInf (Fin b) = PInf"
| "fl_add NInf (Fin b) = NInf"
| "fl_add PInf PInf = PInf"
| "fl_add NInf NInf = NInf"
| "fl_add PInf NInf = NaN"
| "fl_add NInf PInf = NaN"

fun fl_le :: "pyfloat \<Rightarrow> pyfloat \<Rightarrow> bool" where
  "fl_le NaN y = False"
| "fl_le x NaN = False"
| "fl_le (Fin a) (Fin b) = (a \<le> b)"
| "fl_le NInf y = True"
| "fl_le x PInf = True"
| "fl_le (Fin a) NInf = False"
| "fl_le PInf (Fin b) = False"
| "fl_le PInf NInf = False"

text \<open>
  The floats of lines 132 to 144. Sums and products associate to the left, as Python
  evaluates them; an \<^verbatim>\<open>int\<close> is converted before it is multiplied.
\<close>

record ieee_figures =
  fl_eave_ft :: pyfloat
  fl_base_mat :: pyfloat
  fl_base_lab :: pyfloat
  fl_accessories :: pyfloat
  fl_subtotal :: pyfloat
  fl_overhead :: pyfloat
  fl_pre_profit :: pyfloat
  fl_profit :: pyfloat
  fl_sales_tax :: pyfloat
  fl_total :: pyfloat

definition compute_figures_ieee ::
    "py_builtins \<Rightarrow> pricing \<Rightarrow> measurement \<Rightarrow> error + ieee_figures" where
  "compute_figures_ieee B p t =
     and_then (py_float B (eave_linear_ft t)) (\<lambda>e.
     and_then (py_int B (downspouts t)) (\<lambda>d.
     and_then (py_int B (miters_inside t)) (\<lambda>mi.
     and_then (py_int B (miters_outside t)) (\<lambda>mo.
     let ef = to_double e;
         m = mi + mo;
         bm = fl_mul ef (to_double (price_per_ft p));
         bl = fl_mul (fl_mul (fl_mul ef (to_double (labor_per_ft p)))
                (to_double (pitch_multiplier p))) (to_double (story_multiplier p)) in
     and_then (int_to_float d) (\<lambda>df.
     and_then (int_to_float m) (\<lambda>mf.
     let acc = fl_add (fl_mul (to_double df) (to_double (downspout_each p)))
                 (fl_mul (to_double mf) (to_double (miter_each p)));
         sub = fl_add (fl_add bm bl) acc;
         ovh = fl_mul sub (to_double (overhead_pct p));
         pre = fl_add sub ovh;
         pft = fl_mul pre (to_double (profit_pct p));
         tax = fl_mul (fl_add bm acc) (to_double (sales_tax_pct p));
         tot = fl_add (fl_add pre pft) tax in
     Inr \<lparr> fl_eave_ft = ef, fl_base_mat = bm, fl_base_lab = bl, fl_accessories = acc,
           fl_subtotal = sub, fl_overhead = ovh, fl_pre_profit = pre, fl_profit = pft,
           fl_sales_tax = tax, fl_total = tot \<rparr>))))))"

text \<open>A payload with an eave length of \<open>2 ^ 1023\<close> feet, and what extraction gives on it.\<close>

definition huge_eave_payload :: json where
  "huge_eave_payload = JObj [(''gutterReport'', JObj [(''totalEaveLengthFt'', JInt (2 ^ 1023))])]"

definition huge_eave_measurement :: measurement where
  "huge_eave_measurement = default_measurement\<lparr>eave_linear_ft := JInt (2 ^ 1023)\<rparr>"

text \<open>A finite float between 0 and \<open>2 ^ k\<close>.\<close>

fun nonneg_below :: "nat \<Rightarrow> pyfloat \<Rightarrow> bool" where
  "nonneg_below k (Fin r) = (0 \<le> r \<and> r \<le> 2 ^ k)"
| "nonneg_below k x = False"

section \<open>Evaluation\<close>

lemmas estimate_defs =
  computeEstimate_def estimate_with_def price_def build_estimate_def compute_figures_def
  bump_story_def extract_measurement_def and_then_def py_get_def py_or_def int_to_float_def
  py_round_def py_str_int_def default_pricing_def Let_def

section \<open>The concrete scenario\<close>

text \<open>
  C1. On the scenario payload (100 ft of eave, 4 downspouts, 2 inside and 1 outside miter,
  one side of two stories) and the default pricing table, the estimate has the line
  amounts 850.00 (materials), 605.00 (labor, with both multipliers 1.10), 340.00
  (downspouts), 36.00 (miters), 219.72 (overhead), 205.07 (profit, from 205.072), 0.00
  (sales tax), and the totals 1831.00 and 2255.79. The whole result is given: the echoed
  inputs, the labels, quantities and unit prices as well. The string parsers play no
  part in it.
\<close>

theorem scenario_estimate:
  "computeEstimate B scenario_payload =
     Inr \<lparr> inputs =
             \<lparr> eave_linear_ft = JInt 100, downspouts = JInt 4, miters_inside = JInt 2,
               miters_outside = JInt 1,
               stories_by_direction = JObj [(''N'', JInt 1), (''S'', JInt 2)],
               pdf_url = JNull \<rparr>,
           line_items =
             [ \<lparr> label = ''Gutter materials'', qty = Some (JFloat 100), uom = Some ''ft'',
                 unit_price = Some 8.50, amount = 850.00 \<rparr>,
               \<lparr> label = ''Labor'', qty = Some (JFloat 100), uom = Some ''ft'',
                 unit_price = Some 5.00, amount = 605.00 \<rparr>,
               \<lparr> label = ''Downspouts (4)'', qty = Some (JInt 4), uom = Some ''ea'',
                 unit_price = Some 85.00, amount = 340.00 \<rparr>,
               \<lparr> label = ''Miters (3)'', qty = Some (JInt 3), uom = Some ''ea'',
                 unit_price = Some 12.00, amount = 36.00 \<rparr>,
               \<lparr> label = ''Overhead'', qty = None, uom = None, unit_price = None,
                 amount = 219.72 \<rparr>,
               \<lparr> label = ''Profit'', qty = None, uom = None, unit_price = None,
                 amount = 205.07 \<rparr>,
               \<lparr> label = ''Sales tax'', qty = None, uom = None, unit_price = None,
                 amount = 0.00 \<rparr> ],
           totals = \<lparr> totals_subtotal = 1831.00, totals_total = 2255.79 \<rparr> \<rparr>"
  by (simp add: estimate_defs scenario_payload_def)

section \<open>Null and absent keys\<close>

text \<open>
  C4. A null is treated as an absent key at every step of the traversal: the payloads
  \<^verbatim>\<open>{"gutterReport": null}\<close>, \<^verbatim>\<open>{}\<close> and \<^verbatim>\<open>{"gutterReport": {}}\<close> all extract to the
  all-default record (0.0, 0, 0, 0, the empty mapping, null), and so do a report whose
  five entries are null and a report whose miter counts and asset URL are null.
\<close>

theorem null_is_absent:
  "extract_measurement (JObj [(''gutterReport'', JNull)]) = Inr default_measurement \<and>
   extract_measurement (JObj []) = Inr default_measurement \<and>
   extract_measurement (JObj [(''gutterReport'', JObj [])]) = Inr default_measurement \<and>
   extract_measurement (JObj [(''gutterReport'', JObj
      [(''totalEaveLengthFt'', JNull), (''estimatedDownspouts'', JNull),
       (''miterCount'', JNull), (''storiesByDirection'', JNull), (''assets'', JNull)])])
     = Inr default_measurement \<and>
   extract_measurement (JObj [(''gutterReport'', JObj
      [(''miterCount'', JObj [(''inside90'', JNull), (''outside90'', JNull)]),
       (''assets'', JObj [(''pdfUrl'', JNull)])])])
     = Inr default_measurement"
  by (simp add: extract_measurement_def and_then_def py_get_def py_or_def default_measurement_def)

section \<open>The all-zero record\<close>

text \<open>
  C8. The all-zero measurement record (no eave, no downspouts, no miters, no stories) is
  priced without error under any pricing table, every one of the seven line amounts is
  0.00 and so are the subtotal and the total. The eave length may be the float 0.0, as
  extraction defaults it, or the integer 0; the asset URL is arbitrary.
\<close>

theorem all_zero_record:
  "(\<exists>r. price B p \<lparr> eave_linear_ft = JFloat 0, downspouts = JInt 0, miters_inside = JInt 0,
            miters_outside = JInt 0, stories_by_direction = JObj [], pdf_url = u \<rparr> = Inr r \<and>
        map amount (line_items r) = [0, 0, 0, 0, 0, 0, 0] \<and>
        totals r = \<lparr> totals_subtotal = 0, totals_total = 0 \<rparr>) \<and>
   (\<exists>r. price B p \<lparr> eave_linear_ft = JInt 0, downspouts = JInt 0, miters_inside = JInt 0,
            miters_outside = JInt 0, stories_by_direction = JObj [], pdf_url = u \<rparr> = Inr r \<and>
        map amount (line_items r) = [0, 0, 0, 0, 0, 0, 0] \<and>
        totals r = \<lparr> totals_subtotal = 0, totals_total = 0 \<rparr>)"
  by (simp add: price_def build_estimate_def compute_figures_def bump_story_def and_then_def
      int_to_float_def py_round_def Let_def)

section \<open>Shared facts about the pipeline\<close>

lemma and_then_Inr: "and_then m f = Inr y \<longleftrightarrow> (\<exists>x. m = Inr x \<and> f x = Inr y)"
  by (cases m) (simp_all add: and_then_def)

lemma any_two_story_Inr:
  "any_two_story vs = Inr b \<Longrightarrow> b = (\<exists>v\<in>set vs. py_ge2 (py_or v (JInt 1)) = Inr True)"
proof (induction vs)
  case Nil
  then show ?case by simp
next
  case (Cons v vs)
  show ?case
  proof (cases "py_ge2 (py_or v (JInt 1))")
    case (Inl e)
    with Cons.prems show ?thesis by simp
  next
    case (Inr c)
    show ?thesis
    proof (cases c)
      case True
      with Inr Cons.prems show ?thesis by auto
    next
      case False
      with Inr Cons.prems have "any_two_story vs = Inr b" by simp
      from Cons.IH [OF this] Inr False show ?thesis by simp
    qed
  qed
qed

lemma bump_story_Inr:
  assumes "bump_story p t = Inr q"
  shows "\<exists>kvs. stories_by_direction t = JObj kvs \<and>
           q = p\<lparr>story_multiplier :=
                 (if \<exists>v\<in>set (map snd kvs). py_ge2 (py_or v (JInt 1)) = Inr True
                  then 1.10 else story_multiplier p)\<rparr>"
proof -
  from assms obtain vs hit where vs: "py_values (stories_by_direction t) = Inr vs"
    and hit: "any_two_story vs = Inr hit"
    and q: "q = (if hit then p\<lparr>story_multiplier := 1.10\<rparr> else p)"
    by (auto simp: bump_story_def and_then_Inr)
  from vs obtain kvs where kvs: "stories_by_direction t = JObj kvs" and vs': "vs = map snd kvs"
    by (cases "stories_by_direction t") auto
  from any_two_story_Inr [OF hit] q vs' kvs show ?thesis by auto
qed

lemma compute_figures_Inr:
  assumes "compute_figures B p t = Inr f"
  shows "\<exists>ef d mi mo.
           py_float B (eave_linear_ft t) = Inr ef \<and> py_int B (downspouts t) = Inr d \<and>
           py_int B (miters_inside t) = Inr mi \<and> py_int B (miters_outside t) = Inr mo \<and>
           fits_float d \<and> fits_float (mi + mo) \<and>
           eave_ft f = ef \<and> ds f = d \<and> miters f = mi + mo \<and>
           ds_amount f = of_int d * downspout_each p \<and>
           miters_amount f = of_int (mi + mo) * miter_each p \<and>
           base_mat f = ef * price_per_ft p \<and>
           base_lab f = ef * labor_per_ft p * pitch_multiplier p * story_multiplier p \<and>
           accessories f = of_int d * downspout_each p + of_int (mi + mo) * miter_each p \<and>
           subtotal f = base_mat f + base_lab f + accessories f \<and>
           overhead f = subtotal f * overhead_pct p \<and>
           pre_profit f = subtotal f + overhead f \<and>
           profit f = pre_profit f * profit_pct p \<and>
           sales_tax f = (base_mat f + accessories f) * sales_tax_pct p \<and>
           total_amt f = pre_profit f + profit f + sales_tax f"
  using assms
  by (auto simp: compute_figures_def and_then_Inr Let_def int_to_float_def fits_float_def
      split: if_splits)

lemma price_Inr:
  "price B p0 t = Inr r \<longleftrightarrow>
     (\<exists>p f. bump_story p0 t = Inr p \<and> compute_figures B p t = Inr f \<and> r = build_estimate p t f)"
  by (auto simp: price_def and_then_Inr)

lemma bump_story_rates:
  assumes "bump_story p t = Inr q"
  shows "price_per_ft q = price_per_ft p \<and> labor_per_ft q = labor_per_ft p \<and>
         downspout_each q = downspout_each p \<and> miter_each q = miter_each p \<and>
         pitch_multiplier q = pitch_multiplier p \<and> overhead_pct q = overhead_pct p \<and>
         profit_pct q = profit_pct p \<and> sales_tax_pct q = sales_tax_pct p \<and>
         (story_multiplier q = 1.10 \<or> story_multiplier q = story_multiplier p)"
  using assms by (auto simp: bump_story_def and_then_Inr split: if_splits)

lemma fits_float_small: "\<bar>n\<bar> < 2 ^ 64 \<Longrightarrow> fits_float n"
proof -
  assume n: "\<bar>n\<bar> < 2 ^ 64"
  have "(2::int) ^ 64 + 2 ^ 970 \<le> 2 ^ 970 + 2 ^ 970"
    by (intro add_right_mono power_increasing) simp_all
  also have "\<dots> = 2 ^ 971" by simp
  also have "\<dots> \<le> 2 ^ 1024" by (intro power_increasing) simp_all
  finally have "(2::int) ^ 64 \<le> 2 ^ 1024 - 2 ^ 970" by simp
  with n show ?thesis by (simp add: fits_float_def)
qed

lemma int_to_float_fits:
  "int_to_float n = (if fits_float n then Inr (of_int n) else Inl OverflowError)"
  by (simp add: int_to_float_def fits_float_def)

section \<open>The story multiplier\<close>

text \<open>
  C2. Whenever a record is priced, its \<open>stories_by_direction\<close> is a mapping, and the story
  multiplier in force is 1.10 if some value \<open>v\<close> of it has \<^verbatim>\<open>(v or 1) >= 2\<close> and the
  configured base otherwise (1.00 in the default table). Only that entry of the pricing
  table changes. The labor figure, and the amount of the labor line, use this multiplier;
  the materials figure is the eave length times \<open>price_per_ft\<close> and the accessories figure
  is downspouts times \<open>downspout_each\<close> plus miters times \<open>miter_each\<close>, whatever the choice.
\<close>

theorem story_multiplier_rule:
  assumes "price B p t = Inr r"
  shows "\<exists>kvs q f.
           stories_by_direction t = JObj kvs \<and>
           bump_story p t = Inr q \<and> compute_figures B q t = Inr f \<and>
           r = build_estimate q t f \<and>
           q = p\<lparr>story_multiplier :=
                 (if \<exists>v\<in>set (map snd kvs). py_ge2 (py_or v (JInt 1)) = Inr True
                  then 1.10 else story_multiplier p)\<rparr> \<and>
           base_lab f = eave_ft f * labor_per_ft p * pitch_multiplier p *
                 (if \<exists>v\<in>set (map snd kvs). py_ge2 (py_or v (JInt 1)) = Inr True
                  then 1.10 else story_multiplier p) \<and>
           amount (line_items r ! 1) = py_round (base_lab f) 2 \<and>
           base_mat f = eave_ft f * price_per_ft p \<and>
           accessories f = of_int (ds f) * downspout_each p + of_int (miters f) * miter_each p \<and>
           story_multiplier default_pricing = 1.00"
proof -
  from assms obtain q f where q: "bump_story p t = Inr q"
    and f: "compute_figures B q t = Inr f" and r: "r = build_estimate q t f"
    by (auto simp: price_Inr)
  from bump_story_Inr [OF q] obtain kvs where kvs: "stories_by_direction t = JObj kvs"
    and q': "q = p\<lparr>story_multiplier :=
                 (if \<exists>v\<in>set (map snd kvs). py_ge2 (py_or v (JInt 1)) = Inr True
                  then 1.10 else story_multiplier p)\<rparr>"
    by blast
  from compute_figures_Inr [OF f]
  have lab: "base_lab f = eave_ft f * labor_per_ft q * pitch_multiplier q * story_multiplier q"
    and mat: "base_mat f = eave_ft f * price_per_ft q"
    and acc: "accessories f = of_int (ds f) * downspout_each q + of_int (miters f) * miter_each q"
    by auto
  have line: "amount (line_items r ! 1) = py_round (base_lab f) 2"
    by (simp add: r build_estimate_def)
  have dflt: "story_multiplier default_pricing = 1.00"
    by (simp add: default_pricing_def)
  have lab': "base_lab f = eave_ft f * labor_per_ft p * pitch_multiplier p *
                 (if \<exists>v\<in>set (map snd kvs). py_ge2 (py_or v (JInt 1)) = Inr True
                  then 1.10 else story_multiplier p)"
    unfolding lab by (subst (1 2 3) q') simp
  have mat': "base_mat f = eave_ft f * price_per_ft p"
    unfolding mat by (subst q') simp
  have acc': "accessories f = of_int (ds f) * downspout_each p + of_int (miters f) * miter_each p"
    unfolding acc by (subst (1 2) q') simp
  from kvs q f r q' lab' line mat' acc' dflt show ?thesis by blast
qed

theorem story_multiplier_rule_witness:
  "(\<exists>r q f. price no_strings default_pricing scenario_measurement = Inr r \<and>
      bump_story default_pricing scenario_measurement = Inr q \<and>
      compute_figures no_strings q scenario_measurement = Inr f \<and>
      story_multiplier q = 1.10 \<and> base_lab f = 605 \<and> base_mat f = 850 \<and>
      accessories f = 376 \<and> amount (line_items r ! 1) = 605) \<and>
   (\<exists>r q f. price no_strings default_pricing one_story_measurement = Inr r \<and>
      bump_story default_pricing one_story_measurement = Inr q \<and>
      compute_figures no_strings q one_story_measurement = Inr f \<and>
      story_multiplier q = 1.00 \<and> base_lab f = 550 \<and> base_mat f = 850 \<and>
      accessories f = 376 \<and> amount (line_items r ! 1) = 550)"
proof -
  note msr = scenario_measurement_def one_story_measurement_def
  have two: "\<exists>r q f. price no_strings default_pricing scenario_measurement = Inr r \<and>
      bump_story default_pricing scenario_measurement = Inr q \<and>
      compute_figures no_strings q scenario_measurement = Inr f \<and>
      story_multiplier q = 1.10 \<and> base_lab f = 605 \<and> base_mat f = 850 \<and>
      accessories f = 376 \<and> amount (line_items r ! 1) = 605"
  proof -
    have "\<exists>r. price no_strings default_pricing scenario_measurement = Inr r"
      by (simp add: price_def compute_figures_def bump_story_def and_then_def py_or_def
          int_to_float_def msr Let_def)
    then obtain r where h: "price no_strings default_pricing scenario_measurement = Inr r" ..
    from story_multiplier_rule [OF h] obtain kvs q f where
      kvs: "stories_by_direction scenario_measurement = JObj kvs"
      and q: "bump_story default_pricing scenario_measurement = Inr q"
      and f: "compute_figures no_strings q scenario_measurement = Inr f"
      and q': "q = default_pricing\<lparr>story_multiplier :=
                 (if \<exists>v\<in>set (map snd kvs). py_ge2 (py_or v (JInt 1)) = Inr True
                  then 1.10 else story_multiplier default_pricing)\<rparr>"
      and lab: "base_lab f = eave_ft f * labor_per_ft default_pricing *
                 pitch_multiplier default_pricing *
                 (if \<exists>v\<in>set (map snd kvs). py_ge2 (py_or v (JInt 1)) = Inr True
                  then 1.10 else story_multiplier default_pricing)"
      and line: "amount (line_items r ! 1) = py_round (base_lab f) 2"
      and mat: "base_mat f = eave_ft f * price_per_ft default_pricing"
      and acc: "accessories f = of_int (ds f) * downspout_each default_pricing +
                 of_int (miters f) * miter_each default_pricing"
      by blast
    from kvs have k: "kvs = [(''N'', JInt 1), (''S'', JInt 2)]"
      by (simp add: msr)
    from compute_figures_Inr [OF f]
    have ef: "eave_ft f = 100" "ds f = 4" "miters f = 3"
      by (auto simp: msr int_to_float_def)
    have m: "story_multiplier q = 1.10"
      by (subst q') (simp add: k py_or_def default_pricing_def)
    have l: "base_lab f = 605"
      unfolding lab by (simp add: k py_or_def ef default_pricing_def)
    have "base_mat f = 850"
      unfolding mat by (simp add: ef default_pricing_def)
    moreover have "accessories f = 376"
      unfolding acc by (simp add: ef default_pricing_def)
    moreover have "amount (line_items r ! 1) = 605"
      unfolding line l by (simp add: py_round_def Let_def)
    ultimately show ?thesis using h q f m l by blast
  qed
  have one: "\<exists>r q f. price no_strings default_pricing one_story_measurement = Inr r \<and>
      bump_story default_pricing one_story_measurement = Inr q \<and>
      compute_figures no_strings q one_story_measurement = Inr f \<and>
      story_multiplier q = 1.00 \<and> base_lab f = 550 \<and> base_mat f = 850 \<and>
      accessories f = 376 \<and> amount (line_items r ! 1) = 550"
  proof -
    have "\<exists>r. price no_strings default_pricing one_story_measurement = Inr r"
      by (simp add: price_def compute_figures_def bump_story_def and_then_def py_or_def
          int_to_float_def msr Let_def)
    then obtain r where h: "price no_strings default_pricing one_story_measurement = Inr r" ..
    from story_multiplier_rule [OF h] obtain kvs q f where
      kvs: "stories_by_direction one_story_measurement = JObj kvs"
      and q: "bump_story default_pricing one_story_measurement = Inr q"
      and f: "compute_figures no_strings q one_story_measurement = Inr f"
      and q': "q = default_pricing\<lparr>story_multiplier :=
                 (if \<exists>v\<in>set (map snd kvs). py_ge2 (py_or v (JInt 1)) = Inr True
                  then 1.10 else story_multiplier default_pricing)\<rparr>"
      and lab: "base_lab f = eave_ft f * labor_per_ft default_pricing *
                 pitch_multiplier default_pricing *
                 (if \<exists>v\<in>set (map snd kvs). py_ge2 (py_or v (JInt 1)) = Inr True
                  then 1.10 else story_multiplier default_pricing)"
      and line: "amount (line_items r ! 1) = py_round (base_lab f) 2"
      and mat: "base_mat f = eave_ft f * price_per_ft default_pricing"
      and acc: "accessories f = of_int (ds f) * downspout_each default_pricing +
                 of_int (miters f) * miter_each default_pricing"
      by blast
    from kvs have k: "kvs = [(''N'', JInt 1), (''S'', JNull)]"
      by (simp add: msr)
    from compute_figures_Inr [OF f]
    have ef: "eave_ft f = 100" "ds f = 4" "miters f = 3"
      by (auto simp: msr int_to_float_def)
    have m: "story_multiplier q = 1.00"
      by (subst q') (simp add: k py_or_def default_pricing_def)
    have l: "base_lab f = 550"
      unfolding lab by (simp add: k py_or_def ef default_pricing_def)
    have "base_mat f = 850"
      unfolding mat by (simp add: ef default_pricing_def)
    moreover have "accessories f = 376"
      unfolding acc by (simp add: ef default_pricing_def)
    moreover have "amount (line_items r ! 1) = 550"
      unfolding line l by (simp add: py_round_def Let_def)
    ultimately show ?thesis using h q f m l by blast
  qed
  from two one show ?thesis ..
qed

section \<open>Ordering of the running totals\<close>

subsection \<open>Rounding to a double is monotone and idempotent\<close>

lemma round_half_even_int: "round_half_even (of_int n) = n"
  by (simp add: round_half_even_def)

lemma round_half_even_range:
  "\<lfloor>q\<rfloor> \<le> round_half_even q \<and> round_half_even q \<le> \<lfloor>q\<rfloor> + 1"
  by (simp add: round_half_even_def Let_def)

lemma round_half_even_mono:
  assumes "q1 \<le> q2"
  shows "round_half_even q1 \<le> round_half_even q2"
proof (cases "\<lfloor>q1\<rfloor> = \<lfloor>q2\<rfloor>")
  case True
  with assms show ?thesis
    by (auto simp: round_half_even_def Let_def)
next
  case False
  with assms have "\<lfloor>q1\<rfloor> < \<lfloor>q2\<rfloor>"
    using floor_mono [OF assms] by linarith
  with round_half_even_range [of q1] round_half_even_range [of q2] show ?thesis
    by linarith
qed

lemma round_half_even_le: "q \<le> of_int n \<Longrightarrow> round_half_even q \<le> n"
  using round_half_even_mono [of q "of_int n"] by (simp add: round_half_even_int)

lemma round_half_even_ge: "of_int n \<le> q \<Longrightarrow> n \<le> round_half_even q"
  using round_half_even_mono [of "of_int n" q] by (simp add: round_half_even_int)

lemma floorlog_upper:
  assumes "0 \<le> (y::real)"
  shows "y < 2 ^ floorlog 2 (nat \<lfloor>y\<rfloor>)"
proof (cases "nat \<lfloor>y\<rfloor> = 0")
  case True
  with assms have "y < 1" by linarith
  then show ?thesis by (simp add: True floorlog_def)
next
  case False
  then have "nat \<lfloor>y\<rfloor> < 2 ^ floorlog 2 (nat \<lfloor>y\<rfloor>)"
    using floorlog_bounds [of "nat \<lfloor>y\<rfloor>" 2] by simp
  then have "int (nat \<lfloor>y\<rfloor>) < 2 ^ floorlog 2 (nat \<lfloor>y\<rfloor>)"
    by (metis of_nat_less_iff of_nat_numeral of_nat_power)
  with assms have "\<lfloor>y\<rfloor> < 2 ^ floorlog 2 (nat \<lfloor>y\<rfloor>)" by simp
  then have "\<lfloor>y\<rfloor> + 1 \<le> 2 ^ floorlog 2 (nat \<lfloor>y\<rfloor>)" by simp
  then have "real_of_int (\<lfloor>y\<rfloor> + 1) \<le> real_of_int (2 ^ floorlog 2 (nat \<lfloor>y\<rfloor>))"
    by (rule of_int_le_iff [THEN iffD2])
  then show ?thesis by simp linarith
qed

lemma floorlog_lower:
  assumes "0 \<le> (y::real)" and "0 < floorlog 2 (nat \<lfloor>y\<rfloor>)"
  shows "2 ^ (floorlog 2 (nat \<lfloor>y\<rfloor>) - 1) \<le> y"
proof -
  from assms(2) have pos: "0 < nat \<lfloor>y\<rfloor>"
    by (simp add: floorlog_def split: if_splits)
  then have "2 ^ (floorlog 2 (nat \<lfloor>y\<rfloor>) - 1) \<le> nat \<lfloor>y\<rfloor>"
    using floorlog_bounds [of "nat \<lfloor>y\<rfloor>" 2] by simp
  then have "real (2 ^ (floorlog 2 (nat \<lfloor>y\<rfloor>) - 1)) \<le> real (nat \<lfloor>y\<rfloor>)"
    by (rule of_nat_mono)
  also have "\<dots> \<le> y" using assms(1) by simp
  finally show ?thesis by simp
qed


lemma round53_nonneg: "0 \<le> y \<Longrightarrow> 0 \<le> round53 y"
proof -
  assume "0 \<le> y"
  then have "0 \<le> round_half_even (y / 2 ^ (floorlog 2 (nat \<lfloor>y\<rfloor>) - 53))"
    by (intro round_half_even_ge) simp
  then show ?thesis by (simp add: round53_def Let_def)
qed

lemma round53_le_pow:
  assumes "0 \<le> y" "y \<le> 2 ^ k" "floorlog 2 (nat \<lfloor>y\<rfloor>) - 53 \<le> k"
  shows "round53 y \<le> 2 ^ k"
proof -
  let ?s = "floorlog 2 (nat \<lfloor>y\<rfloor>) - 53"
  have "y / 2 ^ ?s \<le> 2 ^ k / 2 ^ ?s"
    using assms(2) by (simp add: divide_right_mono)
  also have "\<dots> = 2 ^ (k - ?s)"
    using assms(3) by (simp add: power_diff)
  also have "\<dots> = real_of_int (2 ^ (k - ?s))" by simp
  finally have "round_half_even (y / 2 ^ ?s) \<le> 2 ^ (k - ?s)"
    by (rule round_half_even_le)
  then have "real_of_int (round_half_even (y / 2 ^ ?s)) \<le> real_of_int (2 ^ (k - ?s))"
    by (rule of_int_le_iff [THEN iffD2])
  then have "real_of_int (round_half_even (y / 2 ^ ?s)) * 2 ^ ?s \<le> 2 ^ (k - ?s) * 2 ^ ?s"
    by (simp add: mult_right_mono)
  also have "\<dots> = 2 ^ k"
    using assms(3) by (simp flip: power_add)
  finally show ?thesis by (simp add: round53_def Let_def)
qed

lemma round53_ge_pow:
  assumes "2 ^ k \<le> y" "floorlog 2 (nat \<lfloor>y\<rfloor>) - 53 \<le> k"
  shows "2 ^ k \<le> round53 y"
proof -
  let ?s = "floorlog 2 (nat \<lfloor>y\<rfloor>) - 53"
  have "real_of_int (2 ^ (k - ?s)) = 2 ^ (k - ?s)" by simp
  also have "\<dots> = 2 ^ k / 2 ^ ?s"
    using assms(2) by (simp add: power_diff)
  also have "\<dots> \<le> y / 2 ^ ?s"
    using assms(1) by (simp add: divide_right_mono)
  finally have "2 ^ (k - ?s) \<le> round_half_even (y / 2 ^ ?s)"
    by (rule round_half_even_ge)
  then have "real_of_int (2 ^ (k - ?s)) \<le> real_of_int (round_half_even (y / 2 ^ ?s))"
    by (rule of_int_le_iff [THEN iffD2])
  then have "2 ^ (k - ?s) * 2 ^ ?s \<le> real_of_int (round_half_even (y / 2 ^ ?s)) * 2 ^ ?s"
    by (simp add: mult_right_mono)
  moreover have "(2::real) ^ (k - ?s) * 2 ^ ?s = 2 ^ k"
    using assms(2) by (simp flip: power_add)
  ultimately show ?thesis by (simp add: round53_def Let_def)
qed

lemma round53_mono:
  assumes "0 \<le> y1" "y1 \<le> y2"
  shows "round53 y1 \<le> round53 y2"
proof -
  let ?b1 = "floorlog 2 (nat \<lfloor>y1\<rfloor>)" and ?b2 = "floorlog 2 (nat \<lfloor>y2\<rfloor>)"
  from assms have y2: "0 \<le> y2" by simp
  have b: "?b1 \<le> ?b2"
    using assms by (intro floorlog_mono nat_mono floor_mono)
  show ?thesis
  proof (cases "?b1 - 53 = ?b2 - 53")
    case True
    have "y1 / 2 ^ (?b1 - 53) \<le> y2 / 2 ^ (?b1 - 53)"
      using assms(2) by (simp add: divide_right_mono)
    then have "round_half_even (y1 / 2 ^ (?b1 - 53)) \<le> round_half_even (y2 / 2 ^ (?b1 - 53))"
      by (rule round_half_even_mono)
    then have "real_of_int (round_half_even (y1 / 2 ^ (?b1 - 53))) * 2 ^ (?b1 - 53)
        \<le> real_of_int (round_half_even (y2 / 2 ^ (?b1 - 53))) * 2 ^ (?b1 - 53)"
      by (simp add: mult_right_mono)
    then show ?thesis by (simp add: round53_def Let_def flip: True)
  next
    case False
    with b have lt: "?b1 < ?b2" and big: "53 < ?b2" by linarith+
    have "y1 < 2 ^ ?b1" by (rule floorlog_upper [OF assms(1)])
    also have "(2::real) ^ ?b1 \<le> 2 ^ (?b2 - 1)"
      using lt by (intro power_increasing) simp_all
    finally have up: "y1 \<le> 2 ^ (?b2 - 1)" by simp
    have lo: "2 ^ (?b2 - 1) \<le> y2"
      using big by (intro floorlog_lower [OF y2]) simp
    have "round53 y1 \<le> 2 ^ (?b2 - 1)"
      using lt by (intro round53_le_pow [OF assms(1) up]) linarith
    also have "\<dots> \<le> round53 y2"
      using big by (intro round53_ge_pow [OF lo]) linarith
    finally show ?thesis .
  qed
qed

lemma round53_fix_lt:
  assumes "m < 2 ^ 53"
  shows "round53 (real m * 2 ^ j) = real m * 2 ^ j"
proof (cases "m = 0")
  case True
  then show ?thesis by (simp add: round53_def round_half_even_def floorlog_def)
next
  case False
  let ?y = "real m * 2 ^ j"
  have fl: "nat \<lfloor>?y\<rfloor> = m * 2 ^ j"
  proof -
    have "?y = real (m * 2 ^ j)" by simp
    then show ?thesis by (simp only: floor_of_nat nat_int)
  qed
  have "floorlog 2 m \<le> 53"
    using assms by (intro floorlog_leI) simp_all
  moreover have "floorlog 2 (m * 2 ^ j) = floorlog 2 m + j"
    using False by (simp add: floorlog_power)
  ultimately have s: "floorlog 2 (nat \<lfloor>?y\<rfloor>) - 53 \<le> j"
    unfolding fl by simp
  let ?s = "floorlog 2 (nat \<lfloor>?y\<rfloor>) - 53"
  have "?y / 2 ^ ?s = real m * 2 ^ (j - ?s)"
    using s by (simp add: power_diff)
  also have "\<dots> = real_of_int (int m * 2 ^ (j - ?s))" by simp
  finally have "round_half_even (?y / 2 ^ ?s) = int m * 2 ^ (j - ?s)"
    by (simp only: round_half_even_int)
  then have "round53 ?y = real_of_int (int m * 2 ^ (j - ?s)) * 2 ^ ?s"
    by (simp add: round53_def Let_def)
  also have "\<dots> = real m * (2 ^ (j - ?s) * 2 ^ ?s)" by simp
  also have "(2::real) ^ (j - ?s) * 2 ^ ?s = 2 ^ j"
    using s by (simp flip: power_add)
  finally show ?thesis .
qed

lemma round53_fix:
  assumes "m \<le> 2 ^ 53"
  shows "round53 (real m * 2 ^ j) = real m * 2 ^ j"
proof (cases "m = 2 ^ 53")
  case True
  have "round53 (real 1 * 2 ^ (53 + j)) = real 1 * 2 ^ (53 + j)"
    by (rule round53_fix_lt) simp
  then show ?thesis by (simp add: True power_add)
next
  case False
  with assms have "m < 2 ^ 53" by simp
  then show ?thesis by (rule round53_fix_lt)
qed

lemma round53_form:
  assumes "0 \<le> y"
  shows "\<exists>m j. m \<le> 2 ^ 53 \<and> round53 y = real m * 2 ^ j"
proof -
  let ?b = "floorlog 2 (nat \<lfloor>y\<rfloor>)"
  let ?s = "?b - 53"
  let ?n = "round_half_even (y / 2 ^ ?s)"
  have "y < 2 ^ ?b" by (rule floorlog_upper [OF assms])
  also have "(2::real) ^ ?b \<le> 2 ^ (53 + ?s)"
    by (intro power_increasing) simp_all
  finally have "y / 2 ^ ?s \<le> 2 ^ (53 + ?s) / 2 ^ ?s"
    by (simp add: divide_right_mono)
  then have "y / 2 ^ ?s \<le> real_of_int (2 ^ 53)" by (simp add: power_add)
  then have le: "?n \<le> 2 ^ 53" by (rule round_half_even_le)
  have ge: "0 \<le> ?n" using assms by (intro round_half_even_ge) simp
  from le ge have "nat ?n \<le> 2 ^ 53" by simp
  moreover from ge have "round53 y = real (nat ?n) * 2 ^ ?s"
    by (simp add: round53_def Let_def)
  ultimately show ?thesis by blast
qed

lemma round53_idem: "0 \<le> y \<Longrightarrow> round53 (round53 y) = round53 y"
  using round53_form [of y] round53_fix by auto

lemma rnd_pos_nonneg: "0 \<le> x \<Longrightarrow> 0 \<le> rnd_pos x"
  by (simp add: rnd_pos_def round53_nonneg)

lemma rnd_pos_mono: "0 \<le> x \<Longrightarrow> x \<le> y \<Longrightarrow> rnd_pos x \<le> rnd_pos y"
  by (simp add: rnd_pos_def round53_mono divide_right_mono)

lemma rnd_pos_idem: "0 \<le> x \<Longrightarrow> rnd_pos (rnd_pos x) = rnd_pos x"
  by (simp add: rnd_pos_def round53_idem)

lemma rnd_pos_zero: "rnd_pos 0 = 0"
  using round53_fix_lt [of 0 0] by (simp add: rnd_pos_def)

lemma rnd_pos_pow2: "rnd_pos (2 ^ k) = 2 ^ k"
  using round53_fix_lt [of 1 "k + 1074"] by (simp add: rnd_pos_def power_add)

lemma rnd_nonneg: "0 \<le> x \<Longrightarrow> 0 \<le> rnd x"
  by (simp add: rnd_def rnd_pos_nonneg)

lemma rnd_mono:
  assumes "x \<le> y"
  shows "rnd x \<le> rnd y"
proof -
  consider "0 \<le> x" | "x < 0" "0 \<le> y" | "x < 0" "y < 0" by linarith
  then show ?thesis
  proof cases
    case 1
    with assms show ?thesis by (simp add: rnd_def rnd_pos_mono)
  next
    case 2
    then have "0 \<le> rnd_pos (- x)" "0 \<le> rnd_pos y" by (simp_all add: rnd_pos_nonneg)
    with 2 show ?thesis by (simp add: rnd_def)
  next
    case 3
    with assms have "rnd_pos (- y) \<le> rnd_pos (- x)" by (intro rnd_pos_mono) simp_all
    with 3 show ?thesis by (simp add: rnd_def)
  qed
qed

lemma rnd_idem: "rnd (rnd x) = rnd x"
proof (cases "x < 0")
  case False
  then have "0 \<le> rnd_pos x" by (simp add: rnd_pos_nonneg)
  with False show ?thesis by (simp add: rnd_def rnd_pos_idem)
next
  case True
  then have nn: "0 \<le> rnd_pos (- x)" by (simp add: rnd_pos_nonneg)
  show ?thesis
  proof (cases "rnd_pos (- x) = 0")
    case z: True
    with True show ?thesis by (simp add: rnd_def rnd_pos_zero)
  next
    case False
    with nn have "0 < rnd_pos (- x)" by simp
    with True show ?thesis by (simp add: rnd_def rnd_pos_idem)
  qed
qed

lemma rnd_zero: "rnd 0 = 0"
  by (simp add: rnd_def rnd_pos_zero)

lemma rnd_pow2: "rnd (2 ^ k) = 2 ^ k"
  by (simp add: rnd_def rnd_pos_pow2)

subsection \<open>Finite, infinite and undefined results\<close>

lemma to_double_FinD: "to_double x = Fin r \<Longrightarrow> r = rnd x"
  by (simp add: to_double_def Let_def split: if_splits)

lemma to_double_nonneg:
  assumes "0 \<le> x" "to_double x = Fin r"
  shows "0 \<le> r \<and> rnd r = r"
  using assms to_double_FinD [OF assms(2)] by (simp add: rnd_nonneg rnd_idem)

lemma to_double_big:
  assumes "2 ^ 1024 \<le> x"
  shows "to_double x = PInf"
proof -
  have "rnd (2 ^ 1024) \<le> rnd x" by (rule rnd_mono [OF assms])
  then have "2 ^ 1024 \<le> rnd x" by (simp only: rnd_pow2)
  then show ?thesis by (simp only: to_double_def Let_def if_True)
qed

lemma to_double_bounded:
  assumes "0 \<le> x" "x \<le> 2 ^ k" "k < 1024"
  shows "\<exists>r. to_double x = Fin r \<and> 0 \<le> r \<and> r \<le> 2 ^ k"
proof -
  have "rnd x \<le> 2 ^ k" using rnd_mono [OF assms(2)] by (simp add: rnd_pow2)
  moreover have "(2::real) ^ k < 2 ^ 1024"
    using assms(3) by (intro power_strict_increasing) simp_all
  moreover have "0 \<le> rnd x" by (rule rnd_nonneg [OF assms(1)])
  ultimately show ?thesis by (simp add: to_double_def Let_def)
qed

lemma fl_mul_FinD:
  assumes "fl_mul x y = Fin r"
  obtains a b where "x = Fin a" "y = Fin b" "fl_mul (Fin a) (Fin b) = Fin r"
  using assms by (cases x; cases y) (simp_all split: if_splits)

lemma fl_add_FinD:
  assumes "fl_add x y = Fin r"
  obtains a b where "x = Fin a" "y = Fin b" "fl_add (Fin a) (Fin b) = Fin r"
  using assms by (cases x; cases y) simp_all

lemma fl_mul_nonneg:
  assumes "fl_mul (Fin a) (Fin b) = Fin r" "0 \<le> a" "0 \<le> b"
  shows "0 \<le> r \<and> rnd r = r"
  using assms by (intro to_double_nonneg [of "a * b"]) simp_all

lemma fl_add_grows:
  assumes "fl_add (Fin a) (Fin b) = Fin r" "0 \<le> a" "rnd a = a" "0 \<le> b"
  shows "a \<le> r \<and> 0 \<le> r \<and> rnd r = r"
proof -
  from assms(1) have r: "to_double (a + b) = Fin r" by simp
  then have "r = rnd (a + b)" by (rule to_double_FinD)
  moreover have "rnd a \<le> rnd (a + b)" using assms(4) by (intro rnd_mono) simp
  moreover have "0 \<le> r \<and> rnd r = r"
    using assms(2,4) r by (intro to_double_nonneg [of "a + b"]) simp_all
  ultimately show ?thesis using assms(3) by simp
qed

lemma to_double_ge:
  assumes "2 ^ k \<le> x"
  shows "to_double x = PInf \<or> (\<exists>r. to_double x = Fin r \<and> 2 ^ k \<le> r)"
proof -
  have "rnd (2 ^ k) \<le> rnd x" by (rule rnd_mono [OF assms])
  then have k: "2 ^ k \<le> rnd x" by (simp only: rnd_pow2)
  have "(0::real) \<le> 2 ^ k" by simp
  from this k have "0 \<le> rnd x" by (rule order_trans)
  then have "\<not> rnd x \<le> - (2 ^ 1024)" by simp
  with k show ?thesis by (simp add: to_double_def Let_def)
qed

lemma rnd_inv_pow2: "k \<le> 1074 \<Longrightarrow> rnd (1 / 2 ^ k) = 1 / 2 ^ k"
proof -
  assume k: "k \<le> 1074"
  have "round53 (real 1 * 2 ^ (1074 - k)) = real 1 * 2 ^ (1074 - k)"
    by (rule round53_fix_lt) simp
  moreover have "(1::real) / 2 ^ k * 2 ^ 1074 = 2 ^ (1074 - k)"
    using k by (simp add: power_diff)
  ultimately show ?thesis
    using k by (simp add: rnd_def rnd_pos_def power_diff)
qed

lemma to_double_rate:
  assumes "1 / 2 ^ i \<le> x" "x \<le> 2 ^ j" "i \<le> 1074" "j < 1024"
  shows "\<exists>r. to_double x = Fin r \<and> 0 < r"
proof -
  have pos: "(0::real) < 1 / 2 ^ i" by simp
  have "rnd (1 / 2 ^ i) \<le> rnd x" by (rule rnd_mono [OF assms(1)])
  then have "1 / 2 ^ i \<le> rnd x" by (simp only: rnd_inv_pow2 [OF assms(3)])
  with pos have r: "0 < rnd x" by (rule less_le_trans)
  from pos assms(1) have "0 < x" by (rule less_le_trans)
  then have "0 \<le> x" by (rule less_imp_le)
  from to_double_bounded [OF this assms(2,4)] obtain r' where "to_double x = Fin r'" by blast
  moreover from this have "r' = rnd x" by (rule to_double_FinD)
  ultimately show ?thesis using r by simp
qed

lemma fl_mul_overflow:
  assumes "x = PInf \<or> (\<exists>a. x = Fin a \<and> 2 ^ 1023 \<le> a)" "2 \<le> r"
  shows "fl_mul x (Fin r) = PInf"
proof -
  from assms(1) consider "x = PInf" | a where "x = Fin a" "2 ^ 1023 \<le> a" by blast
  then show ?thesis
  proof cases
    case 1
    with assms(2) show ?thesis by simp
  next
    case 2
    have "(2::real) ^ 1024 = 2 ^ 1023 * 2" by simp
    also have "\<dots> \<le> a * r"
      using 2(2) assms(2) by (intro mult_mono) simp_all
    finally have "to_double (a * r) = PInf" by (rule to_double_big)
    with 2(1) show ?thesis by simp
  qed
qed

lemma default_rates:
  "\<exists>r1 r2 r3 r4 r5 r6 r7 r8.
     to_double (price_per_ft default_pricing) = Fin r1 \<and> 2 \<le> r1 \<and>
     to_double (labor_per_ft default_pricing) = Fin r2 \<and> 2 \<le> r2 \<and>
     to_double (pitch_multiplier default_pricing) = Fin r3 \<and> 0 < r3 \<and>
     to_double (story_multiplier default_pricing) = Fin r4 \<and> 0 < r4 \<and>
     to_double (downspout_each default_pricing) = Fin r5 \<and>
     to_double (miter_each default_pricing) = Fin r6 \<and>
     to_double (overhead_pct default_pricing) = Fin r7 \<and> 0 < r7 \<and>
     to_double (profit_pct default_pricing) = Fin r8 \<and> 0 < r8 \<and>
     to_double (sales_tax_pct default_pricing) = Fin 0"
proof -
  have b: "(2::real) ^ 1 \<le> price_per_ft default_pricing" "(2::real) ^ 1 \<le> labor_per_ft default_pricing"
    by (simp_all add: default_pricing_def)
  have u: "price_per_ft default_pricing \<le> 2 ^ 7" "labor_per_ft default_pricing \<le> 2 ^ 7"
    "pitch_multiplier default_pricing \<le> 2 ^ 7" "story_multiplier default_pricing \<le> 2 ^ 7"
    "downspout_each default_pricing \<le> 2 ^ 7" "miter_each default_pricing \<le> 2 ^ 7"
    "overhead_pct default_pricing \<le> 2 ^ 7" "profit_pct default_pricing \<le> 2 ^ 7"
    by (simp_all add: default_pricing_def)
  have l: "1 / 2 ^ 4 \<le> pitch_multiplier default_pricing"
    "1 / 2 ^ 4 \<le> story_multiplier default_pricing"
    "1 / 2 ^ 4 \<le> overhead_pct default_pricing" "1 / 2 ^ 4 \<le> profit_pct default_pricing"
    "1 / 2 ^ 4 \<le> price_per_ft default_pricing" "1 / 2 ^ 4 \<le> labor_per_ft default_pricing"
    "1 / 2 ^ 4 \<le> downspout_each default_pricing" "1 / 2 ^ 4 \<le> miter_each default_pricing"
    by (simp_all add: default_pricing_def)
  from to_double_rate [OF l(5) u(1)] obtain r1 where
    r1: "to_double (price_per_ft default_pricing) = Fin r1" by auto
  from to_double_ge [OF b(1)] r1 have r1b: "2 \<le> r1" by simp
  from to_double_rate [OF l(6) u(2)] obtain r2 where
    r2: "to_double (labor_per_ft default_pricing) = Fin r2" by auto
  from to_double_ge [OF b(2)] r2 have r2b: "2 \<le> r2" by simp
  from to_double_rate [OF l(1) u(3)] obtain r3 where
    r3: "to_double (pitch_multiplier default_pricing) = Fin r3" "0 < r3" by auto
  from to_double_rate [OF l(2) u(4)] obtain r4 where
    r4: "to_double (story_multiplier default_pricing) = Fin r4" "0 < r4" by auto
  from to_double_rate [OF l(7) u(5)] obtain r5 where
    r5: "to_double (downspout_each default_pricing) = Fin r5" by auto
  from to_double_rate [OF l(8) u(6)] obtain r6 where
    r6: "to_double (miter_each default_pricing) = Fin r6" by auto
  from to_double_rate [OF l(3) u(7)] obtain r7 where
    r7: "to_double (overhead_pct default_pricing) = Fin r7" "0 < r7" by auto
  from to_double_rate [OF l(4) u(8)] obtain r8 where
    r8: "to_double (profit_pct default_pricing) = Fin r8" "0 < r8" by auto
  have r9: "to_double (sales_tax_pct default_pricing) = Fin 0"
    by (simp add: default_pricing_def to_double_def rnd_zero)
  from r1 r1b r2 r2b r3 r4 r5 r6 r7 r8 r9 show ?thesis by blast
qed

lemma to_double_zero: "to_double 0 = Fin 0"
  by (simp add: to_double_def rnd_zero)

lemma ieee_overflow:
  assumes pe: "py_float B (eave_linear_ft t) = Inr e" and big: "2 ^ 1023 \<le> e"
    and pd: "py_int B (downspouts t) = Inr 0"
    and pi: "py_int B (miters_inside t) = Inr 0"
    and po: "py_int B (miters_outside t) = Inr 0"
  shows "\<exists>f. compute_figures_ieee B default_pricing t = Inr f \<and>
           fl_subtotal f = PInf \<and> fl_pre_profit f = PInf \<and> fl_total f = NaN"
proof -
  from default_rates obtain r1 r2 r3 r4 r5 r6 r7 r8 where
    r: "to_double (price_per_ft default_pricing) = Fin r1" "2 \<le> r1"
     "to_double (labor_per_ft default_pricing) = Fin r2" "2 \<le> r2"
     "to_double (pitch_multiplier default_pricing) = Fin r3" "0 < r3"
     "to_double (story_multiplier default_pricing) = Fin r4" "0 < r4"
     "to_double (downspout_each default_pricing) = Fin r5"
     "to_double (miter_each default_pricing) = Fin r6"
     "to_double (overhead_pct default_pricing) = Fin r7" "0 < r7"
     "to_double (profit_pct default_pricing) = Fin r8" "0 < r8"
     "to_double (sales_tax_pct default_pricing) = Fin 0"
    by blast
  from to_double_ge [OF big]
  have ef: "to_double e = PInf \<or> (\<exists>a. to_double e = Fin a \<and> 2 ^ 1023 \<le> a)" .
  have bm: "fl_mul (to_double e) (Fin r1) = PInf" by (rule fl_mul_overflow [OF ef r(2)])
  have l3: "fl_mul (to_double e) (Fin r2) = PInf" by (rule fl_mul_overflow [OF ef r(4)])
  have i0: "int_to_float 0 = Inr 0" by (simp add: int_to_float_def)
  have z: "to_double (0 * x) = Fin 0" for x by (simp add: to_double_zero)
  have z2: "to_double (0 + 0) = Fin 0" by (simp add: to_double_zero)
  show ?thesis
    using r(6,8,12,14)
    by (simp add: compute_figures_ieee_def and_then_def Let_def pe pd pi po i0
        r(1,3,5,7,9,10,11,13,15) bm l3 to_double_zero z)
qed

lemma nonneg_below_to_double:
  assumes "0 \<le> x" "x \<le> 2 ^ k" "k < 1024"
  shows "nonneg_below k (to_double x)"
  using to_double_bounded [OF assms] by auto

lemma nonneg_below_mono:
  assumes "nonneg_below i x" "i \<le> j"
  shows "nonneg_below j x"
proof -
  from assms(1) obtain r where x: "x = Fin r" and r: "0 \<le> r" "r \<le> 2 ^ i"
    by (cases x) auto
  have "(2::real) ^ i \<le> 2 ^ j"
    using assms(2) by (intro power_increasing) simp_all
  with r(2) have "r \<le> 2 ^ j" by (rule order_trans)
  with r(1) x show ?thesis by simp
qed

lemma nonneg_below_mul:
  assumes "nonneg_below i x" "nonneg_below j y" "i + j < 1024"
  shows "nonneg_below (i + j) (fl_mul x y)"
proof -
  from assms(1) obtain a where x: "x = Fin a" and a: "0 \<le> a" "a \<le> 2 ^ i"
    by (cases x) auto
  from assms(2) obtain b where y: "y = Fin b" and b: "0 \<le> b" "b \<le> 2 ^ j"
    by (cases y) auto
  have "a * b \<le> 2 ^ i * 2 ^ j" using a b by (intro mult_mono) simp_all
  then have "a * b \<le> 2 ^ (i + j)" by (simp add: power_add)
  moreover have "0 \<le> a * b" using a b by simp
  ultimately have "nonneg_below (i + j) (to_double (a * b))"
    using assms(3) by (intro nonneg_below_to_double)
  then show ?thesis by (simp add: x y)
qed

lemma nonneg_below_add:
  assumes "nonneg_below k x" "nonneg_below k y" "Suc k < 1024"
  shows "nonneg_below (Suc k) (fl_add x y)"
proof -
  from assms(1) obtain a where x: "x = Fin a" and a: "0 \<le> a" "a \<le> 2 ^ k"
    by (cases x) auto
  from assms(2) obtain b where y: "y = Fin b" and b: "0 \<le> b" "b \<le> 2 ^ k"
    by (cases y) auto
  have "a + b \<le> 2 ^ k + 2 ^ k" using a b by (intro add_mono)
  then have "a + b \<le> 2 ^ Suc k" by simp
  moreover have "0 \<le> a + b" using a b by simp
  ultimately have "nonneg_below (Suc k) (to_double (a + b))"
    using assms(3) by (intro nonneg_below_to_double)
  then show ?thesis by (simp add: x y)
qed

lemma ieee_total_finite:
  assumes rates: "nonneg_rates p"
    and below: "price_per_ft p \<le> 2 ^ 10" "labor_per_ft p \<le> 2 ^ 10"
      "downspout_each p \<le> 2 ^ 10" "miter_each p \<le> 2 ^ 10" "pitch_multiplier p \<le> 2 ^ 10"
      "story_multiplier p \<le> 2 ^ 10" "overhead_pct p \<le> 2 ^ 10" "profit_pct p \<le> 2 ^ 10"
      "sales_tax_pct p \<le> 2 ^ 10"
    and eave: "py_float B (eave_linear_ft t) = Inr e" "0 \<le> e" "e \<le> 2 ^ 64"
    and dsp: "py_int B (downspouts t) = Inr d" "0 \<le> d" "d < 2 ^ 64"
    and mi: "py_int B (miters_inside t) = Inr mi" "0 \<le> mi"
    and mo: "py_int B (miters_outside t) = Inr mo" "0 \<le> mo" "mi + mo < 2 ^ 64"
  shows "\<exists>f. compute_figures_ieee B p t = Inr f \<and> nonneg_below 120 (fl_total f)"
proof -
  from rates
  have p: "0 \<le> price_per_ft p" "0 \<le> labor_per_ft p" "0 \<le> downspout_each p"
    "0 \<le> miter_each p" "0 \<le> pitch_multiplier p" "0 \<le> story_multiplier p"
    "0 \<le> overhead_pct p" "0 \<le> profit_pct p" "0 \<le> sales_tax_pct p"
    by (auto simp: nonneg_rates_def)
  let ?ef = "to_double e"
  let ?bm = "fl_mul ?ef (to_double (price_per_ft p))"
  let ?l3 = "fl_mul ?ef (to_double (labor_per_ft p))"
  let ?l2 = "fl_mul ?l3 (to_double (pitch_multiplier p))"
  let ?bl = "fl_mul ?l2 (to_double (story_multiplier p))"
  let ?a1 = "fl_mul (to_double (of_int d)) (to_double (downspout_each p))"
  let ?a2 = "fl_mul (to_double (of_int (mi + mo))) (to_double (miter_each p))"
  let ?acc = "fl_add ?a1 ?a2"
  let ?sub = "fl_add (fl_add ?bm ?bl) ?acc"
  let ?ovh = "fl_mul ?sub (to_double (overhead_pct p))"
  let ?pre = "fl_add ?sub ?ovh"
  let ?pft = "fl_mul ?pre (to_double (profit_pct p))"
  let ?tax = "fl_mul (fl_add ?bm ?acc) (to_double (sales_tax_pct p))"
  let ?tot = "fl_add (fl_add ?pre ?pft) ?tax"
  have fd: "int_to_float d = Inr (of_int d)"
    using dsp(2,3) by (simp add: int_to_float_fits fits_float_small)
  have fm: "int_to_float (mi + mo) = Inr (of_int (mi + mo))"
    using mi(2) mo(2,3) by (simp add: int_to_float_fits fits_float_small)
  have f: "\<exists>f. compute_figures_ieee B p t = Inr f \<and> fl_total f = ?tot"
    by (simp add: compute_figures_ieee_def and_then_def Let_def eave(1) dsp(1) mi(1) mo(1)
        fd fm)
  have r: "nonneg_below 10 (to_double (price_per_ft p))"
    "nonneg_below 10 (to_double (labor_per_ft p))"
    "nonneg_below 10 (to_double (downspout_each p))"
    "nonneg_below 10 (to_double (miter_each p))"
    "nonneg_below 10 (to_double (pitch_multiplier p))"
    "nonneg_below 10 (to_double (story_multiplier p))"
    "nonneg_below 10 (to_double (overhead_pct p))"
    "nonneg_below 10 (to_double (profit_pct p))"
    "nonneg_below 10 (to_double (sales_tax_pct p))"
    using p below by (simp_all add: nonneg_below_to_double)
  have ef: "nonneg_below 64 ?ef"
    using eave(2,3) by (simp add: nonneg_below_to_double)
  have "real_of_int d \<le> real_of_int (2 ^ 64)"
    using dsp(3) by (intro of_int_le_iff [THEN iffD2]) simp
  then have df: "nonneg_below 64 (to_double (of_int d))"
    using dsp(2) by (intro nonneg_below_to_double) simp_all
  have "real_of_int (mi + mo) \<le> real_of_int (2 ^ 64)"
    using mo(3) by (intro of_int_le_iff [THEN iffD2]) simp
  then have mf: "nonneg_below 64 (to_double (of_int (mi + mo)))"
    using mi(2) mo(2) by (intro nonneg_below_to_double) simp_all
  have bm: "nonneg_below 94 ?bm"
    by (rule nonneg_below_mono [OF nonneg_below_mul [OF ef r(1)]]) simp_all
  have l3: "nonneg_below 74 ?l3"
    by (rule nonneg_below_mono [OF nonneg_below_mul [OF ef r(2)]]) simp_all
  have l2: "nonneg_below 84 ?l2"
    by (rule nonneg_below_mono [OF nonneg_below_mul [OF l3 r(5)]]) simp_all
  have bl: "nonneg_below 94 ?bl"
    by (rule nonneg_below_mono [OF nonneg_below_mul [OF l2 r(6)]]) simp_all
  have a1: "nonneg_below 74 ?a1"
    by (rule nonneg_below_mono [OF nonneg_below_mul [OF df r(3)]]) simp_all
  have a2: "nonneg_below 74 ?a2"
    by (rule nonneg_below_mono [OF nonneg_below_mul [OF mf r(4)]]) simp_all
  have acc: "nonneg_below 95 ?acc"
    by (rule nonneg_below_mono [OF nonneg_below_add [OF a1 a2]]) simp_all
  have ml: "nonneg_below 95 (fl_add ?bm ?bl)"
    by (rule nonneg_below_mono [OF nonneg_below_add [OF bm bl]]) simp_all
  have sub: "nonneg_below 96 ?sub"
    by (rule nonneg_below_mono [OF nonneg_below_add [OF ml acc]]) simp_all
  have ovh: "nonneg_below 106 ?ovh"
    by (rule nonneg_below_mono [OF nonneg_below_mul [OF sub r(7)]]) simp_all
  have pre: "nonneg_below 107 ?pre"
    by (rule nonneg_below_mono
        [OF nonneg_below_add [OF nonneg_below_mono [OF sub] ovh]]) simp_all
  have pft: "nonneg_below 117 ?pft"
    by (rule nonneg_below_mono [OF nonneg_below_mul [OF pre r(8)]]) simp_all
  have pp: "nonneg_below 118 (fl_add ?pre ?pft)"
    by (rule nonneg_below_mono
        [OF nonneg_below_add [OF nonneg_below_mono [OF pre] pft]]) simp_all
  have ma: "nonneg_below 96 (fl_add ?bm ?acc)"
    by (rule nonneg_below_mono
        [OF nonneg_below_add [OF nonneg_below_mono [OF bm] acc]]) simp_all
  have tax: "nonneg_below 118 ?tax"
    by (rule nonneg_below_mono [OF nonneg_below_mul [OF ma r(9)]]) simp_all
  have tot: "nonneg_below 120 ?tot"
    by (rule nonneg_below_mono [OF nonneg_below_add [OF pp tax]]) simp_all
  from f tot show ?thesis by auto
qed

subsection \<open>The claim\<close>

text \<open>
  C7 says that non-negative quantities and rates give \<open>subtotal \<le> pre_profit \<le> total\<close>. In
  the arithmetic of the program this fails when a product overflows: with an eave length
  of \<open>2 ^ 1023\<close> feet (about 9e307), no downspouts, no miters and the program's own pricing
  table, the materials figure is \<^verbatim>\<open>inf\<close>, so are the subtotal and the pre-profit figure,
  the sales tax is \<^verbatim>\<open>inf * 0.0\<close>, which is \<^verbatim>\<open>nan\<close>, the total is \<^verbatim>\<open>nan\<close>, and
  \<^verbatim>\<open>pre_profit <= total\<close> is false.
\<close>

theorem overflow_unordered_counterexample:
  "extract_measurement huge_eave_payload = Inr huge_eave_measurement \<and>
   nonneg_rates default_pricing \<and>
   bump_story default_pricing huge_eave_measurement = Inr default_pricing \<and>
   py_float no_strings (eave_linear_ft huge_eave_measurement) = Inr (2 ^ 1023) \<and>
   py_int no_strings (downspouts huge_eave_measurement) = Inr 0 \<and>
   py_int no_strings (miters_inside huge_eave_measurement) = Inr 0 \<and>
   py_int no_strings (miters_outside huge_eave_measurement) = Inr 0 \<and>
   map_sum id fl_subtotal
     (compute_figures_ieee no_strings default_pricing huge_eave_measurement) = Inr PInf \<and>
   map_sum id fl_pre_profit
     (compute_figures_ieee no_strings default_pricing huge_eave_measurement) = Inr PInf \<and>
   map_sum id fl_total
     (compute_figures_ieee no_strings default_pricing huge_eave_measurement) = Inr NaN \<and>
   \<not> fl_le PInf NaN"
proof -
  have x: "extract_measurement huge_eave_payload = Inr huge_eave_measurement"
    by (simp add: extract_measurement_def and_then_def py_get_def py_or_def
        huge_eave_payload_def huge_eave_measurement_def default_measurement_def)
  have n: "nonneg_rates default_pricing"
    by (simp add: nonneg_rates_def default_pricing_def)
  have b: "bump_story default_pricing huge_eave_measurement = Inr default_pricing"
    by (simp add: bump_story_def and_then_def huge_eave_measurement_def
        default_measurement_def)
  have pe: "py_float no_strings (eave_linear_ft huge_eave_measurement) = Inr (2 ^ 1023)"
    by (simp add: huge_eave_measurement_def int_to_float_def)
  have pd: "py_int no_strings (downspouts huge_eave_measurement) = Inr 0"
    and pi: "py_int no_strings (miters_inside huge_eave_measurement) = Inr 0"
    and po: "py_int no_strings (miters_outside huge_eave_measurement) = Inr 0"
    by (simp_all add: huge_eave_measurement_def default_measurement_def)
  have "(2::real) ^ 1023 \<le> 2 ^ 1023" by (rule order_refl)
  from ieee_overflow [OF pe this pd pi po] obtain f where
    f: "compute_figures_ieee no_strings default_pricing huge_eave_measurement = Inr f"
    and s: "fl_subtotal f = PInf" "fl_pre_profit f = PInf" "fl_total f = NaN"
    by blast
  have m: "map_sum id fl_subtotal
       (compute_figures_ieee no_strings default_pricing huge_eave_measurement) = Inr PInf"
    "map_sum id fl_pre_profit
       (compute_figures_ieee no_strings default_pricing huge_eave_measurement) = Inr PInf"
    "map_sum id fl_total
       (compute_figures_ieee no_strings default_pricing huge_eave_measurement) = Inr NaN"
    by (simp_all add: f s)
  have l: "\<not> fl_le PInf NaN" by simp
  from x n b pe pd pi po m l show ?thesis by blast
qed

text \<open>
  C7, amended. When the nine configured rates are non-negative, the record's eave length
  (as \<^verbatim>\<open>float\<close> reads it), downspout count and two miter counts (as \<^verbatim>\<open>int\<close> reads them)
  are non-negative, and the total that pricing computes is a finite float (no product or
  sum has overflowed), the unrounded figures satisfy \<open>subtotal \<le> pre_profit \<le> total\<close> in
  the arithmetic of the program, roundings included. By \<open>ieee_total_finite\<close> the total is
  finite whenever the quantities are below \<open>2 ^ 64\<close> and the rates at most 1024.
\<close>

theorem ieee_figures_ordered:
  assumes bump: "bump_story p0 t = Inr p"
    and figs: "compute_figures_ieee B p t = Inr f"
    and rates: "nonneg_rates p0"
    and eave: "py_float B (eave_linear_ft t) = Inr e" "0 \<le> e"
    and dsp: "py_int B (downspouts t) = Inr d" "0 \<le> d"
    and mi: "py_int B (miters_inside t) = Inr mi" "0 \<le> mi"
    and mo: "py_int B (miters_outside t) = Inr mo" "0 \<le> mo"
    and finite: "fl_total f = Fin tot"
  shows "fl_le (fl_subtotal f) (fl_pre_profit f) \<and> fl_le (fl_pre_profit f) (fl_total f)"
proof -
  from bump_story_rates [OF bump] rates
  have p: "0 \<le> price_per_ft p" "0 \<le> labor_per_ft p" "0 \<le> downspout_each p"
    "0 \<le> miter_each p" "0 \<le> pitch_multiplier p" "0 \<le> story_multiplier p"
    "0 \<le> overhead_pct p" "0 \<le> profit_pct p" "0 \<le> sales_tax_pct p"
    by (auto simp: nonneg_rates_def)
  let ?ef = "to_double e"
  let ?bm = "fl_mul ?ef (to_double (price_per_ft p))"
  let ?bl = "fl_mul (fl_mul (fl_mul ?ef (to_double (labor_per_ft p)))
                (to_double (pitch_multiplier p))) (to_double (story_multiplier p))"
  let ?acc = "fl_add (fl_mul (to_double (of_int d)) (to_double (downspout_each p)))
                 (fl_mul (to_double (of_int (mi + mo))) (to_double (miter_each p)))"
  let ?sub = "fl_add (fl_add ?bm ?bl) ?acc"
  let ?ovh = "fl_mul ?sub (to_double (overhead_pct p))"
  let ?pre = "fl_add ?sub ?ovh"
  let ?pft = "fl_mul ?pre (to_double (profit_pct p))"
  let ?tax = "fl_mul (fl_add ?bm ?acc) (to_double (sales_tax_pct p))"
  let ?tot = "fl_add (fl_add ?pre ?pft) ?tax"
  from figs eave(1) dsp(1) mi(1) mo(1)
  have f: "fl_subtotal f = ?sub" "fl_pre_profit f = ?pre" "fl_total f = ?tot"
    by (auto simp: compute_figures_ieee_def and_then_Inr Let_def int_to_float_def
        split: if_splits)
  from finite f(3) have "?tot = Fin tot" by simp
  then obtain x1 tx where x1: "fl_add ?pre ?pft = Fin x1" and tx: "?tax = Fin tx"
    and tot: "fl_add (Fin x1) (Fin tx) = Fin tot"
    by (rule fl_add_FinD)
  from x1 obtain pr pf where pr: "?pre = Fin pr" and pf: "?pft = Fin pf"
    and x1': "fl_add (Fin pr) (Fin pf) = Fin x1"
    by (rule fl_add_FinD)
  from pr obtain sb ov where sb: "?sub = Fin sb" and ov: "?ovh = Fin ov"
    and pr': "fl_add (Fin sb) (Fin ov) = Fin pr"
    by (rule fl_add_FinD)
  from sb obtain x2 ac where x2: "fl_add ?bm ?bl = Fin x2" and ac: "?acc = Fin ac"
    and sb': "fl_add (Fin x2) (Fin ac) = Fin sb"
    by (rule fl_add_FinD)
  from x2 obtain m1 l1 where m1: "?bm = Fin m1" and l1: "?bl = Fin l1"
    and x2': "fl_add (Fin m1) (Fin l1) = Fin x2"
    by (rule fl_add_FinD)
  from m1 obtain e1 r1 where e1: "?ef = Fin e1" and r1: "to_double (price_per_ft p) = Fin r1"
    and m1': "fl_mul (Fin e1) (Fin r1) = Fin m1"
    by (rule fl_mul_FinD)
  have e1n: "0 \<le> e1" using to_double_nonneg [OF eave(2) e1] by simp
  have r1n: "0 \<le> r1" using to_double_nonneg [OF p(1) r1] by simp
  have m1n: "0 \<le> m1 \<and> rnd m1 = m1" by (rule fl_mul_nonneg [OF m1' e1n r1n])
  from l1 obtain l2 r4 where l2: "fl_mul (fl_mul ?ef (to_double (labor_per_ft p)))
        (to_double (pitch_multiplier p)) = Fin l2"
    and r4: "to_double (story_multiplier p) = Fin r4"
    and l1': "fl_mul (Fin l2) (Fin r4) = Fin l1"
    by (rule fl_mul_FinD)
  from l2 obtain l3 r3 where l3: "fl_mul ?ef (to_double (labor_per_ft p)) = Fin l3"
    and r3: "to_double (pitch_multiplier p) = Fin r3"
    and l2': "fl_mul (Fin l3) (Fin r3) = Fin l2"
    by (rule fl_mul_FinD)
  from l3 obtain e1' r2 where "?ef = Fin e1'" and r2: "to_double (labor_per_ft p) = Fin r2"
    and "fl_mul (Fin e1') (Fin r2) = Fin l3"
    by (rule fl_mul_FinD)
  with e1 have l3': "fl_mul (Fin e1) (Fin r2) = Fin l3" by simp
  have r2n: "0 \<le> r2" using to_double_nonneg [OF p(2) r2] by simp
  have r3n: "0 \<le> r3" using to_double_nonneg [OF p(5) r3] by simp
  have r4n: "0 \<le> r4" using to_double_nonneg [OF p(6) r4] by simp
  have l3n: "0 \<le> l3" using fl_mul_nonneg [OF l3' e1n r2n] by simp
  have l2n: "0 \<le> l2" using fl_mul_nonneg [OF l2' l3n r3n] by simp
  have l1n: "0 \<le> l1" using fl_mul_nonneg [OF l1' l2n r4n] by simp
  from ac obtain a1 a2
    where a1: "fl_mul (to_double (of_int d)) (to_double (downspout_each p)) = Fin a1"
    and a2: "fl_mul (to_double (of_int (mi + mo))) (to_double (miter_each p)) = Fin a2"
    and ac': "fl_add (Fin a1) (Fin a2) = Fin ac"
    by (rule fl_add_FinD)
  from a1 obtain d1 r5 where d1: "to_double (of_int d) = Fin d1"
    and r5: "to_double (downspout_each p) = Fin r5"
    and a1': "fl_mul (Fin d1) (Fin r5) = Fin a1"
    by (rule fl_mul_FinD)
  from a2 obtain d2 r6 where d2: "to_double (of_int (mi + mo)) = Fin d2"
    and r6: "to_double (miter_each p) = Fin r6"
    and a2': "fl_mul (Fin d2) (Fin r6) = Fin a2"
    by (rule fl_mul_FinD)
  have d1n: "0 \<le> d1" using to_double_nonneg [OF _ d1] dsp(2) by simp
  have d2n: "0 \<le> d2" using to_double_nonneg [OF _ d2] mi(2) mo(2) by simp
  have r5n: "0 \<le> r5" using to_double_nonneg [OF p(3) r5] by simp
  have r6n: "0 \<le> r6" using to_double_nonneg [OF p(4) r6] by simp
  have a1n: "0 \<le> a1 \<and> rnd a1 = a1" by (rule fl_mul_nonneg [OF a1' d1n r5n])
  have a2n: "0 \<le> a2" using fl_mul_nonneg [OF a2' d2n r6n] by simp
  have acn: "0 \<le> ac" using fl_add_grows [OF ac' _ _ a2n] a1n by simp
  have x2n: "0 \<le> x2 \<and> rnd x2 = x2" using fl_add_grows [OF x2' _ _ l1n] m1n by simp
  have sbn: "0 \<le> sb \<and> rnd sb = sb" using fl_add_grows [OF sb' _ _ acn] x2n by simp
  from ov obtain sb' r7 where "?sub = Fin sb'" and r7: "to_double (overhead_pct p) = Fin r7"
    and "fl_mul (Fin sb') (Fin r7) = Fin ov"
    by (rule fl_mul_FinD)
  with sb have ov': "fl_mul (Fin sb) (Fin r7) = Fin ov" by simp
  have r7n: "0 \<le> r7" using to_double_nonneg [OF p(7) r7] by simp
  have ovn: "0 \<le> ov" using fl_mul_nonneg [OF ov' _ r7n] sbn by simp
  have prn: "sb \<le> pr \<and> 0 \<le> pr \<and> rnd pr = pr"
    using fl_add_grows [OF pr' _ _ ovn] sbn by simp
  from pf obtain pr0 r8 where "?pre = Fin pr0" and r8: "to_double (profit_pct p) = Fin r8"
    and "fl_mul (Fin pr0) (Fin r8) = Fin pf"
    by (rule fl_mul_FinD)
  with pr have pf': "fl_mul (Fin pr) (Fin r8) = Fin pf" by simp
  have r8n: "0 \<le> r8" using to_double_nonneg [OF p(8) r8] by simp
  have pfn: "0 \<le> pf" using fl_mul_nonneg [OF pf' _ r8n] prn by simp
  have x1n: "pr \<le> x1 \<and> 0 \<le> x1 \<and> rnd x1 = x1"
    using fl_add_grows [OF x1' _ _ pfn] prn by simp
  from tx obtain y r9 where y: "fl_add ?bm ?acc = Fin y"
    and r9: "to_double (sales_tax_pct p) = Fin r9"
    and tx': "fl_mul (Fin y) (Fin r9) = Fin tx"
    by (rule fl_mul_FinD)
  from y m1 ac have y': "fl_add (Fin m1) (Fin ac) = Fin y" by simp
  have yn: "0 \<le> y" using fl_add_grows [OF y' _ _ acn] m1n by simp
  have r9n: "0 \<le> r9" using to_double_nonneg [OF p(9) r9] by simp
  have txn: "0 \<le> tx" using fl_mul_nonneg [OF tx' yn r9n] by simp
  have totn: "x1 \<le> tot" using fl_add_grows [OF tot _ _ txn] x1n by simp
  have s: "fl_subtotal f = Fin sb" by (simp only: f(1) sb)
  have q: "fl_pre_profit f = Fin pr" by (simp only: f(2) pr)
  from prn x1n totn have "sb \<le> pr" "pr \<le> tot" by simp_all
  then show ?thesis by (simp add: s q finite)
qed

theorem ieee_figures_ordered_witness:
  "\<exists>p f tot. bump_story default_pricing scenario_measurement = Inr p \<and>
     compute_figures_ieee no_strings p scenario_measurement = Inr f \<and>
     nonneg_rates default_pricing \<and> fl_total f = Fin tot \<and>
     fl_le (fl_subtotal f) (fl_pre_profit f) \<and> fl_le (fl_pre_profit f) (fl_total f)"
proof -
  let ?p = "default_pricing\<lparr>story_multiplier := 1.10\<rparr>"
  have b: "bump_story default_pricing scenario_measurement = Inr ?p"
    by (simp add: bump_story_def and_then_def py_or_def scenario_measurement_def)
  have n: "nonneg_rates default_pricing" "nonneg_rates ?p"
    by (simp_all add: nonneg_rates_def default_pricing_def)
  have q: "py_float no_strings (eave_linear_ft scenario_measurement) = Inr 100"
    "py_int no_strings (downspouts scenario_measurement) = Inr 4"
    "py_int no_strings (miters_inside scenario_measurement) = Inr 2"
    "py_int no_strings (miters_outside scenario_measurement) = Inr 1"
    by (simp_all add: scenario_measurement_def int_to_float_def)
  have "\<exists>f. compute_figures_ieee no_strings ?p scenario_measurement = Inr f \<and>
      nonneg_below 120 (fl_total f)"
    by (rule ieee_total_finite [OF n(2) _ _ _ _ _ _ _ _ _ q(1) _ _ q(2) _ _ q(3) _ q(4)])
      (simp_all add: default_pricing_def)
  then obtain f where f: "compute_figures_ieee no_strings ?p scenario_measurement = Inr f"
    and t: "nonneg_below 120 (fl_total f)" by blast
  from t obtain tot where tot: "fl_total f = Fin tot" by (cases "fl_total f") auto
  from ieee_figures_ordered [OF b f n(1) q(1) _ q(2) _ q(3) _ q(4) _ tot]
  have "fl_le (fl_subtotal f) (fl_pre_profit f) \<and> fl_le (fl_pre_profit f) (fl_total f)"
    by simp
  with b f n(1) tot show ?thesis by blast
qed

section \<open>The tax base\<close>

text \<open>
  C3. Take two payloads whose extracted eave length, downspout count and miter counts are
  equal, priced under two tables that agree on \<open>price_per_ft\<close>, \<open>downspout_each\<close>,
  \<open>miter_each\<close> and \<open>sales_tax_pct\<close> and are otherwise arbitrary (labor rate, pitch and story
  multipliers, story counts of the payloads). Then the two estimates have the same sales
  tax, unrounded and in the sales tax line, and it is
  \<open>(base_mat + accessories) * sales_tax_pct\<close>: labor is no part of the tax base.
\<close>

theorem sales_tax_excludes_labor:
  assumes ex: "extract_measurement d1 = Inr t1" "extract_measurement d2 = Inr t2"
    and same: "eave_linear_ft t1 = eave_linear_ft t2" "downspouts t1 = downspouts t2"
      "miters_inside t1 = miters_inside t2" "miters_outside t1 = miters_outside t2"
    and bump: "bump_story p1 t1 = Inr q1" "bump_story p2 t2 = Inr q2"
    and figs: "compute_figures B q1 t1 = Inr f1" "compute_figures B q2 t2 = Inr f2"
    and rates: "price_per_ft p1 = price_per_ft p2" "downspout_each p1 = downspout_each p2"
      "miter_each p1 = miter_each p2" "sales_tax_pct p1 = sales_tax_pct p2"
  shows "estimate_with B p1 d1 = Inr (build_estimate q1 t1 f1) \<and>
         estimate_with B p2 d2 = Inr (build_estimate q2 t2 f2) \<and>
         sales_tax f1 = (base_mat f1 + accessories f1) * sales_tax_pct p1 \<and>
         sales_tax f2 = (base_mat f2 + accessories f2) * sales_tax_pct p2 \<and>
         base_mat f1 = base_mat f2 \<and> accessories f1 = accessories f2 \<and>
         sales_tax f1 = sales_tax f2 \<and>
         amount (line_items (build_estimate q1 t1 f1) ! 6) =
           amount (line_items (build_estimate q2 t2 f2) ! 6)"
proof -
  have e1: "estimate_with B p1 d1 = Inr (build_estimate q1 t1 f1)"
    using ex(1) bump(1) figs(1) by (simp add: estimate_with_def price_def and_then_def)
  have e2: "estimate_with B p2 d2 = Inr (build_estimate q2 t2 f2)"
    using ex(2) bump(2) figs(2) by (simp add: estimate_with_def price_def and_then_def)
  note r1 = bump_story_rates [OF bump(1)] and r2 = bump_story_rates [OF bump(2)]
  from compute_figures_Inr [OF figs(1)] obtain ef d mi mo where
    a: "py_float B (eave_linear_ft t1) = Inr ef" "py_int B (downspouts t1) = Inr d"
      "py_int B (miters_inside t1) = Inr mi" "py_int B (miters_outside t1) = Inr mo"
      "base_mat f1 = ef * price_per_ft q1"
      "accessories f1 = of_int d * downspout_each q1 + of_int (mi + mo) * miter_each q1"
      "sales_tax f1 = (base_mat f1 + accessories f1) * sales_tax_pct q1"
    by blast
  from compute_figures_Inr [OF figs(2)] a(1-4) same
  have b: "base_mat f2 = ef * price_per_ft q2"
      "accessories f2 = of_int d * downspout_each q2 + of_int (mi + mo) * miter_each q2"
      "sales_tax f2 = (base_mat f2 + accessories f2) * sales_tax_pct q2"
    by auto
  have m: "base_mat f1 = base_mat f2" using a(5) b(1) r1 r2 rates by simp
  have c: "accessories f1 = accessories f2" using a(6) b(2) r1 r2 rates by simp
  have t1: "sales_tax f1 = (base_mat f1 + accessories f1) * sales_tax_pct p1"
    using a(7) r1 by simp
  have t2: "sales_tax f2 = (base_mat f2 + accessories f2) * sales_tax_pct p2"
    using b(3) r2 by simp
  have t: "sales_tax f1 = sales_tax f2" using t1 t2 m c rates by simp
  have l: "amount (line_items (build_estimate q1 t1 f1) ! 6) =
           amount (line_items (build_estimate q2 t2 f2) ! 6)"
    by (simp add: build_estimate_def t)
  from e1 e2 t1 t2 m c t l show ?thesis by blast
qed


theorem sales_tax_excludes_labor_witness:
  "\<exists>q1 q2 f1 f2.
     estimate_with no_strings taxed_pricing scenario_payload =
       Inr (build_estimate q1 scenario_measurement f1) \<and>
     estimate_with no_strings (taxed_pricing\<lparr>labor_per_ft := 9\<rparr>) one_story_payload =
       Inr (build_estimate q2 one_story_measurement f2) \<and>
     base_lab f1 = 605 \<and> base_lab f2 = 990 \<and>
     sales_tax f1 = 85.82 \<and> sales_tax f2 = 85.82"
proof -
  note defs = compute_figures_def bump_story_def and_then_def py_or_def int_to_float_def
    taxed_pricing_def default_pricing_def scenario_measurement_def one_story_measurement_def
    Let_def
  let ?p2 = "taxed_pricing\<lparr>labor_per_ft := 9\<rparr>"
  have x1: "extract_measurement scenario_payload = Inr scenario_measurement"
    by (simp add: extract_measurement_def and_then_def py_get_def py_or_def
        scenario_payload_def scenario_measurement_def)
  have x2: "extract_measurement one_story_payload = Inr one_story_measurement"
    by (simp add: extract_measurement_def and_then_def py_get_def py_or_def
        one_story_payload_def scenario_measurement_def one_story_measurement_def)
  obtain q1 where b1: "bump_story taxed_pricing scenario_measurement = Inr q1"
    and s1: "story_multiplier q1 = 1.10"
    by (simp add: defs)
  obtain q2 where b2: "bump_story ?p2 one_story_measurement = Inr q2"
    and s2: "story_multiplier q2 = 1.00"
    by (simp add: defs)
  from b1 have q1: "q1 = taxed_pricing\<lparr>story_multiplier := 1.10\<rparr>" by (simp add: defs)
  from b2 have q2: "q2 = ?p2" by (simp add: defs)
  obtain f1 where c1: "compute_figures no_strings q1 scenario_measurement = Inr f1"
    and l1: "base_lab f1 = 605" and t1: "sales_tax f1 = 85.82"
    unfolding q1 by (simp add: defs)
  obtain f2 where c2: "compute_figures no_strings q2 one_story_measurement = Inr f2"
    and l2: "base_lab f2 = 990" and t2: "sales_tax f2 = 85.82"
    unfolding q2 by (simp add: defs)
  have same: "eave_linear_ft scenario_measurement = eave_linear_ft one_story_measurement"
    "downspouts scenario_measurement = downspouts one_story_measurement"
    "miters_inside scenario_measurement = miters_inside one_story_measurement"
    "miters_outside scenario_measurement = miters_outside one_story_measurement"
    by (simp_all add: one_story_measurement_def)
  have rates: "price_per_ft taxed_pricing = price_per_ft ?p2"
    "downspout_each taxed_pricing = downspout_each ?p2"
    "miter_each taxed_pricing = miter_each ?p2"
    "sales_tax_pct taxed_pricing = sales_tax_pct ?p2"
    by simp_all
  from sales_tax_excludes_labor [OF x1 x2 same b1 b2 c1 c2 rates] l1 l2 t1 t2
  show ?thesis by blast
qed

section \<open>The line items\<close>

text \<open>
  C9. Every estimate has exactly seven line items, labelled in this order: gutter
  materials, labor, downspouts, miters, overhead, profit, sales tax. No line is dropped
  for a zero amount. The downspout and miter labels carry the integer counts, which are
  also the quantities of those lines: \<^verbatim>\<open>Downspouts (N)\<close> and \<^verbatim>\<open>Miters (N)\<close>.
\<close>

theorem line_items_fixed_order:
  assumes "estimate_with B p data = Inr r"
  shows "\<exists>d mi mo.
           py_int B (downspouts (inputs r)) = Inr d \<and>
           py_int B (miters_inside (inputs r)) = Inr mi \<and>
           py_int B (miters_outside (inputs r)) = Inr mo \<and>
           length (line_items r) = 7 \<and>
           map label (line_items r) =
             [''Gutter materials'', ''Labor'', ''Downspouts ('' @ py_str_int d @ '')'',
              ''Miters ('' @ py_str_int (mi + mo) @ '')'', ''Overhead'', ''Profit'',
              ''Sales tax''] \<and>
           qty (line_items r ! 2) = Some (JInt d) \<and>
           qty (line_items r ! 3) = Some (JInt (mi + mo))"
proof -
  from assms obtain t q f where q: "bump_story p t = Inr q"
    and f: "compute_figures B q t = Inr f" and r: "r = build_estimate q t f"
    by (auto simp: estimate_with_def and_then_Inr price_Inr)
  from compute_figures_Inr [OF f] obtain d mi mo where
    "py_int B (downspouts t) = Inr d" "py_int B (miters_inside t) = Inr mi"
    "py_int B (miters_outside t) = Inr mo" "ds f = d" "miters f = mi + mo"
    by blast
  then show ?thesis
    by (intro exI [of _ d] exI [of _ mi] exI [of _ mo]) (simp add: r build_estimate_def)
qed

theorem line_items_fixed_order_witness:
  "\<exists>r. estimate_with no_strings default_pricing (JObj []) = Inr r \<and>
     map amount (line_items r) = [0, 0, 0, 0, 0, 0, 0] \<and>
     map label (line_items r) =
       [''Gutter materials'', ''Labor'', ''Downspouts (0)'', ''Miters (0)'', ''Overhead'',
        ''Profit'', ''Sales tax'']"
proof -
  obtain r where h: "estimate_with no_strings default_pricing (JObj []) = Inr r"
    and a: "map amount (line_items r) = [0, 0, 0, 0, 0, 0, 0]"
    and i: "inputs r = default_measurement"
    by (simp add: estimate_defs default_measurement_def)
  from line_items_fixed_order [OF h] i h a show ?thesis
    by (auto simp: default_measurement_def py_str_int_def)
qed

section \<open>Story counts are copied, not checked\<close>

text \<open>
  C6 says that every extracted record maps each direction to an integer of at least 1.
  Extraction does not check the values: the payload
  \<^verbatim>\<open>{"gutterReport": {"storiesByDirection": {"N": 0}}}\<close> extracts to a record whose story
  count for N is 0. (The pricing rule allows for such values: it reads \<^verbatim>\<open>v or 1\<close>.)
\<close>

theorem stories_not_validated_counterexample:
  "extract_measurement zero_story_payload =
     Inr \<lparr> eave_linear_ft = JFloat 0, downspouts = JInt 0, miters_inside = JInt 0,
           miters_outside = JInt 0, stories_by_direction = JObj [(''N'', JInt 0)],
           pdf_url = JNull \<rparr> \<and>
   \<not> stories_valid (JObj [(''N'', JInt 0)])"
  by (simp add: extract_measurement_def and_then_def py_get_def py_or_def zero_story_payload_def)

text \<open>
  C6, amended. Extraction copies \<^verbatim>\<open>gutterReport.storiesByDirection\<close> into
  \<open>stories_by_direction\<close> unchanged when the report is an object and the value is truthy
  (a non-empty object, for one), and gives the empty mapping when the report or the value
  is missing, null or falsy. So the story counts of the record are those of the payload,
  integers of at least 1 only if the payload's are.
\<close>

theorem stories_passed_through:
  assumes "extract_measurement data = Inr t"
  shows "\<exists>kvs. data = JObj kvs \<and>
           stories_by_direction t =
             (case map_of kvs ''gutterReport'' of
                Some (JObj g) \<Rightarrow>
                  (case map_of g ''storiesByDirection'' of
                     Some st \<Rightarrow> if truthy st then st else JObj []
                   | None \<Rightarrow> JObj [])
              | _ \<Rightarrow> JObj [])"
proof -
  from assms obtain g st where g: "py_get_default data ''gutterReport'' (JObj []) = Inr g"
    and st: "py_get (py_or g (JObj [])) ''storiesByDirection'' = Inr st"
    and t: "stories_by_direction t = py_or st (JObj [])"
    by (auto simp: extract_measurement_def and_then_Inr Let_def)
  from g obtain kvs where kvs: "data = JObj kvs"
    and g': "g = (case map_of kvs ''gutterReport'' of None \<Rightarrow> JObj [] | Some v \<Rightarrow> v)"
    by (cases data) auto
  show ?thesis
  proof (cases "map_of kvs ''gutterReport''")
    case None
    with g' st t kvs show ?thesis by (simp add: py_or_def py_get_def)
  next
    case (Some v)
    with g' have gv: "g = v" by simp
    show ?thesis
    proof (cases v)
      case (JObj gk)
      with gv st have "st = (case map_of gk ''storiesByDirection'' of None \<Rightarrow> JNull | Some x \<Rightarrow> x)"
        by (cases gk) (auto simp: py_or_def py_get_def)
      with t kvs Some JObj show ?thesis
        by (simp add: py_or_def split: option.splits)
    qed (use gv st t kvs Some in \<open>auto simp: py_or_def py_get_def split: if_splits\<close>)
  qed
qed

theorem stories_passed_through_witness:
  "extract_measurement scenario_payload = Inr scenario_measurement \<and>
   stories_by_direction scenario_measurement = JObj [(''N'', JInt 1), (''S'', JInt 2)] \<and>
   (\<exists>t. extract_measurement one_story_payload = Inr t \<and>
        stories_by_direction t = JObj [(''N'', JInt 1), (''S'', JNull)])"
proof -
  have x1: "extract_measurement scenario_payload = Inr scenario_measurement"
    by (simp add: extract_measurement_def and_then_def py_get_def py_or_def
        scenario_payload_def scenario_measurement_def)
  obtain t where x2: "extract_measurement one_story_payload = Inr t"
    by (simp add: extract_measurement_def and_then_def py_get_def py_or_def
        one_story_payload_def)
  from stories_passed_through [OF x1]
  have s1: "stories_by_direction scenario_measurement = JObj [(''N'', JInt 1), (''S'', JInt 2)]"
    by (simp add: scenario_payload_def)
  from stories_passed_through [OF x2]
  have s2: "stories_by_direction t = JObj [(''N'', JInt 1), (''S'', JNull)]"
    by (simp add: one_story_payload_def)
  from x1 x2 s1 s2 show ?thesis by blast
qed

section \<open>The asset URL\<close>

lemma map_of_map_key:
  "map_of (map_key k f kvs) k' = (if k' = k then map_option f (map_of kvs k) else map_of kvs k')"
  by (induction kvs) (auto simp: map_key_def)

lemma map_key_Nil: "map_key k f [] = []"
  by (simp add: map_key_def)

lemma py_get_map_key_other:
  "k' \<noteq> k \<Longrightarrow> py_get (on_obj (map_key k f) d) k' = py_get d k'"
  by (cases d) (simp_all add: py_get_def map_of_map_key)

lemma py_get_map_key_same:
  "f JNull = JNull \<Longrightarrow> py_get (on_obj (map_key k f) d) k = map_sum id f (py_get d k)"
  by (cases d) (simp_all add: py_get_def map_of_map_key split: option.splits)

lemma py_get_map_key_const:
  "\<exists>x. py_get (on_obj (map_key k (\<lambda>_. u)) d) k = map_sum id (\<lambda>_. x) (py_get d k)"
proof (cases d)
  case (JObj kvs)
  show ?thesis
  proof (cases "map_of kvs k")
    case None
    with JObj show ?thesis by (intro exI [of _ JNull]) (simp add: py_get_def map_of_map_key)
  next
    case (Some v)
    with JObj show ?thesis by (intro exI [of _ u]) (simp add: py_get_def map_of_map_key)
  qed
qed (simp_all add: py_get_def)

lemma py_get_default_map_key:
  "f (JObj []) = JObj [] \<Longrightarrow>
   py_get_default (on_obj (map_key k f) d) k (JObj []) = map_sum id f (py_get_default d k (JObj []))"
  by (cases d) (simp_all add: map_of_map_key split: option.splits)

lemma py_or_map_key:
  "py_or (on_obj (map_key k f) d) (JObj []) = on_obj (map_key k f) (py_or d (JObj []))"
  by (cases d) (simp_all add: py_or_def map_key_def)

lemma extract_with_pdf_url:
  "\<exists>x. extract_measurement (with_pdf_url u data) =
         map_sum id (\<lambda>t. t\<lparr>pdf_url := x\<rparr>) (extract_measurement data)"
proof (cases "py_get_default data ''gutterReport'' (JObj [])")
  case (Inl e)
  then show ?thesis
    by (simp add: extract_measurement_def with_pdf_url_def py_get_default_map_key map_key_Nil Let_def and_then_def)
next
  case (Inr g)
  let ?h = "on_obj (map_key ''pdfUrl'' (\<lambda>_. u))"
  let ?G = "py_or g (JObj [])"
  show ?thesis
  proof (cases "py_get ?G ''assets''")
    case (Inl e)
    with Inr show ?thesis
      by (simp add: extract_measurement_def with_pdf_url_def py_get_default_map_key map_key_Nil Let_def
          py_or_map_key py_get_map_key_other py_get_map_key_same and_then_def
          split: sum.splits)
  next
    case a: (Inr a)
    from py_get_map_key_const [of "''pdfUrl''" u "py_or a (JObj [])"]
    obtain x where x: "py_get (?h (py_or a (JObj []))) ''pdfUrl'' =
        map_sum id (\<lambda>_. x) (py_get (py_or a (JObj [])) ''pdfUrl'')" ..
    from Inr a x show ?thesis
      by (intro exI [of _ x])
        (simp add: extract_measurement_def with_pdf_url_def py_get_default_map_key map_key_Nil Let_def
          py_or_map_key py_get_map_key_other py_get_map_key_same and_then_def
          split: sum.splits)
  qed
qed

lemma price_pdf_url:
  "price B p (t\<lparr>pdf_url := x\<rparr>) =
     map_sum id (\<lambda>r. r\<lparr>inputs := (inputs r)\<lparr>pdf_url := x\<rparr>\<rparr>) (price B p t)"
  by (simp add: price_def bump_story_def compute_figures_def build_estimate_def and_then_def
      Let_def split: sum.splits)

text \<open>
  C10. Replacing the value of \<^verbatim>\<open>gutterReport.assets.pdfUrl\<close> in a payload changes
  neither the line items nor the totals of the estimate (nor whether there is one, nor
  the error raised otherwise): only the \<open>pdf_url\<close> entry of the echoed inputs can differ.
  This holds under every pricing table, the default one of \<open>computeEstimate\<close> included.
\<close>

theorem pdf_url_only_echoed:
  "map_sum id line_items (estimate_with B p (with_pdf_url u data)) =
     map_sum id line_items (estimate_with B p data) \<and>
   map_sum id totals (estimate_with B p (with_pdf_url u data)) =
     map_sum id totals (estimate_with B p data) \<and>
   (\<exists>x. map_sum id inputs (estimate_with B p (with_pdf_url u data)) =
      map_sum id (\<lambda>r. (inputs r)\<lparr>pdf_url := x\<rparr>) (estimate_with B p data))"
proof -
  from extract_with_pdf_url [of u data] obtain x where
    x: "extract_measurement (with_pdf_url u data) =
          map_sum id (\<lambda>t. t\<lparr>pdf_url := x\<rparr>) (extract_measurement data)" ..
  have e: "estimate_with B p (with_pdf_url u data) =
      map_sum id (\<lambda>r. r\<lparr>inputs := (inputs r)\<lparr>pdf_url := x\<rparr>\<rparr>) (estimate_with B p data)"
  proof (cases "extract_measurement data")
    case (Inl e)
    with x show ?thesis by (simp add: estimate_with_def and_then_def)
  next
    case (Inr t)
    with x show ?thesis by (simp add: estimate_with_def and_then_def price_pdf_url)
  qed
  have "map_sum id line_items (estimate_with B p (with_pdf_url u data)) =
     map_sum id line_items (estimate_with B p data)"
    unfolding e by (cases "estimate_with B p data") simp_all
  moreover have "map_sum id totals (estimate_with B p (with_pdf_url u data)) =
     map_sum id totals (estimate_with B p data)"
    unfolding e by (cases "estimate_with B p data") simp_all
  moreover have "map_sum id inputs (estimate_with B p (with_pdf_url u data)) =
      map_sum id (\<lambda>r. (inputs r)\<lparr>pdf_url := x\<rparr>) (estimate_with B p data)"
    unfolding e by (cases "estimate_with B p data") simp_all
  ultimately show ?thesis by blast
qed

theorem pdf_url_only_echoed_witness:
  "with_pdf_url (JStr ''b.pdf'') report_payload =
     JObj [(''gutterReport'', JObj
       [(''totalEaveLengthFt'', JFloat 42.5),
        (''assets'', JObj [(''pdfUrl'', JStr ''b.pdf'')])])] \<and>
   (\<exists>r1 r2. computeEstimate no_strings report_payload = Inr r1 \<and>
      computeEstimate no_strings (with_pdf_url (JStr ''b.pdf'') report_payload) = Inr r2 \<and>
      pdf_url (inputs r1) = JStr ''a.pdf'' \<and> pdf_url (inputs r2) = JStr ''b.pdf'' \<and>
      line_items r2 = line_items r1 \<and> totals r2 = totals r1)"
proof -
  have w: "with_pdf_url (JStr ''b.pdf'') report_payload =
     JObj [(''gutterReport'', JObj
       [(''totalEaveLengthFt'', JFloat 42.5),
        (''assets'', JObj [(''pdfUrl'', JStr ''b.pdf'')])])]"
    by (simp add: with_pdf_url_def report_payload_def map_key_def)
  obtain r1 where r1: "computeEstimate no_strings report_payload = Inr r1"
    and p1: "pdf_url (inputs r1) = JStr ''a.pdf''"
    by (simp add: estimate_defs report_payload_def)
  obtain r2 where r2: "computeEstimate no_strings (with_pdf_url (JStr ''b.pdf'') report_payload) = Inr r2"
    and p2: "pdf_url (inputs r2) = JStr ''b.pdf''"
    unfolding w by (simp add: estimate_defs)
  from pdf_url_only_echoed [of no_strings default_pricing "JStr ''b.pdf''" report_payload] r1 r2
  have "line_items r2 = line_items r1 \<and> totals r2 = totals r1"
    by (simp add: computeEstimate_def)
  with w r1 r2 p1 p2 show ?thesis by blast
qed

section \<open>Payloads of the documented shape\<close>

lemma opt_field_get:
  "opt_field P kvs k \<Longrightarrow> \<exists>v. py_get (JObj kvs) k = Inr v \<and> (v = JNull \<or> P v)"
  by (auto simp: opt_field_def py_get_def split: option.splits)

lemma opt_field_Nil: "opt_field P [] k"
  by (simp add: opt_field_def)

lemma py_or_number: "v = JNull \<or> is_number v \<Longrightarrow> is_number (py_or v (JFloat 0))"
  by (cases v) (auto simp: py_or_def)

lemma py_or_int: "v = JNull \<or> is_int v \<Longrightarrow> is_int (py_or v (JInt 0))"
  by (cases v) (auto simp: py_or_def)

lemma py_or_miter:
  "v = JNull \<or> miter_shape v \<Longrightarrow>
   \<exists>kvs. py_or v (JObj []) = JObj kvs \<and> opt_field is_int kvs ''inside90'' \<and>
     opt_field is_int kvs ''outside90''"
  by (cases v) (auto simp: py_or_def opt_field_Nil)

lemma py_or_stories: "v = JNull \<or> stories_shape v \<Longrightarrow> stories_shape (py_or v (JObj []))"
  by (cases v) (auto simp: py_or_def)

lemma py_or_assets:
  "v = JNull \<or> assets_shape v \<Longrightarrow> \<exists>kvs. py_or v (JObj []) = JObj kvs"
  by (cases v) (auto simp: py_or_def)

lemma py_or_gutter:
  "v = JNull \<or> gutter_shape v \<Longrightarrow>
   \<exists>kvs. py_or v (JObj []) = JObj kvs \<and> gutter_shape (JObj kvs)"
  by (cases v) (auto simp: py_or_def opt_field_Nil)

lemma extract_shape:
  assumes "documented_shape data"
  shows "\<exists>t. extract_measurement data = Inr t \<and> is_number (eave_linear_ft t) \<and>
           is_int (downspouts t) \<and> is_int (miters_inside t) \<and> is_int (miters_outside t) \<and>
           stories_shape (stories_by_direction t)"
proof -
  from assms obtain kvs where data: "data = JObj kvs"
    and rep: "opt_field gutter_shape kvs ''gutterReport''"
    by (cases data) auto
  have "\<exists>g. py_get_default data ''gutterReport'' (JObj []) = Inr g \<and>
          (g = JNull \<or> gutter_shape g)"
    using rep by (auto simp: data opt_field_def opt_field_Nil split: option.splits)
  then obtain g where g: "py_get_default data ''gutterReport'' (JObj []) = Inr g"
    and gs: "g = JNull \<or> gutter_shape g" by blast
  from py_or_gutter [OF gs] obtain gk where gk: "py_or g (JObj []) = JObj gk"
    and shape: "gutter_shape (JObj gk)" by blast
  from shape have f: "opt_field is_number gk ''totalEaveLengthFt''"
    "opt_field is_int gk ''estimatedDownspouts''"
    "opt_field miter_shape gk ''miterCount''"
    "opt_field stories_shape gk ''storiesByDirection''"
    "opt_field assets_shape gk ''assets''"
    by simp_all
  from opt_field_get [OF f(1)] obtain ev where
    ev: "py_get (JObj gk) ''totalEaveLengthFt'' = Inr ev" "ev = JNull \<or> is_number ev" by blast
  from opt_field_get [OF f(2)] obtain dv where
    dv: "py_get (JObj gk) ''estimatedDownspouts'' = Inr dv" "dv = JNull \<or> is_int dv" by blast
  from opt_field_get [OF f(3)] obtain mc where
    mc: "py_get (JObj gk) ''miterCount'' = Inr mc" "mc = JNull \<or> miter_shape mc" by blast
  from py_or_miter [OF mc(2)] obtain mk where mk: "py_or mc (JObj []) = JObj mk"
    "opt_field is_int mk ''inside90''" "opt_field is_int mk ''outside90''" by blast
  from opt_field_get [OF mk(2)] obtain mi where
    mi: "py_get (JObj mk) ''inside90'' = Inr mi" "mi = JNull \<or> is_int mi" by blast
  from opt_field_get [OF mk(3)] obtain mo where
    mo: "py_get (JObj mk) ''outside90'' = Inr mo" "mo = JNull \<or> is_int mo" by blast
  from opt_field_get [OF f(4)] obtain sv where
    sv: "py_get (JObj gk) ''storiesByDirection'' = Inr sv" "sv = JNull \<or> stories_shape sv"
    by blast
  from opt_field_get [OF f(5)] obtain av where
    av: "py_get (JObj gk) ''assets'' = Inr av" "av = JNull \<or> assets_shape av" by blast
  from py_or_assets [OF av(2)] obtain ak where ak: "py_or av (JObj []) = JObj ak" by blast
  obtain pv where pv: "py_get (JObj ak) ''pdfUrl'' = Inr pv"
    by (simp add: py_get_def)
  have "extract_measurement data =
      Inr \<lparr> eave_linear_ft = py_or ev (JFloat 0), downspouts = py_or dv (JInt 0),
            miters_inside = py_or mi (JInt 0), miters_outside = py_or mo (JInt 0),
            stories_by_direction = py_or sv (JObj []), pdf_url = pv \<rparr>"
    by (simp add: extract_measurement_def and_then_def Let_def g gk ev(1) dv(1) mc(1) mk(1)
        mi(1) mo(1) sv(1) av(1) ak pv)
  with py_or_number [OF ev(2)] py_or_int [OF dv(2)] py_or_int [OF mi(2)] py_or_int [OF mo(2)]
    py_or_stories [OF sv(2)]
  show ?thesis by simp
qed

lemma any_two_story_shape:
  "list_all (\<lambda>v. v = JNull \<or> is_int v) vs \<Longrightarrow> \<exists>b. any_two_story vs = Inr b"
proof (induction vs)
  case Nil
  show ?case by (intro exI [of _ False]) simp
next
  case (Cons v vs)
  then obtain b where b: "any_two_story vs = Inr b" by auto
  from Cons.prems have "v = JNull \<or> is_int v" by simp
  then have "\<exists>c. py_ge2 (py_or v (JInt 1)) = Inr c"
    by (cases v) (auto simp: py_or_def)
  then obtain c where "py_ge2 (py_or v (JInt 1)) = Inr c" ..
  with b show ?case by (cases c) auto
qed

lemma bump_story_shape:
  assumes "stories_shape (stories_by_direction t)"
  shows "\<exists>q. bump_story p t = Inr q"
proof -
  from assms obtain kvs where k: "stories_by_direction t = JObj kvs"
    and l: "list_all (\<lambda>v. v = JNull \<or> is_int v) (map snd kvs)"
    by (cases "stories_by_direction t") auto
  from any_two_story_shape [OF l] obtain b where "any_two_story (map snd kvs) = Inr b" ..
  with k show ?thesis by (simp add: bump_story_def and_then_def)
qed

lemma compute_figures_shape:
  assumes "is_number (eave_linear_ft t)" "is_int (downspouts t)" "is_int (miters_inside t)"
    "is_int (miters_outside t)"
  shows "if magnitudes_fit t then \<exists>f. compute_figures B p t = Inr f
         else compute_figures B p t = Inl OverflowError"
proof -
  from assms(2) obtain d where d: "downspouts t = JInt d" by (cases "downspouts t") auto
  from assms(3) obtain mi where mi: "miters_inside t = JInt mi"
    by (cases "miters_inside t") auto
  from assms(4) obtain mo where mo: "miters_outside t = JInt mo"
    by (cases "miters_outside t") auto
  have z: "fits_float 0" by (rule fits_float_small) simp
  from assms(1) show ?thesis
    by (cases "eave_linear_ft t")
      (simp_all add: compute_figures_def magnitudes_fit_def int_to_float_fits and_then_def
        Let_def d mi mo z)
qed

text \<open>
  C5 says that extraction followed by pricing never raises on a payload of the documented
  shape. It does when an integer of the payload is too large for a float: with a
  downspout count of \<open>2 ^ 1024\<close> the product \<^verbatim>\<open>ds * pricing["downspout_each"]\<close> of line 138
  raises OverflowError (int too large to convert to float).
\<close>

theorem huge_count_raises_counterexample:
  "documented_shape huge_count_payload \<and>
   computeEstimate no_strings huge_count_payload = Inl OverflowError"
  by (simp add: huge_count_payload_def opt_field_def estimate_defs)

text \<open>
  C5, amended. On every payload of the documented shape extraction succeeds, and pricing
  returns an estimate provided the integers it turns into floats (an integer eave length,
  the downspout count, the sum of the two miter counts) are below \<open>2 ^ 1024 - 2 ^ 970\<close> in
  magnitude; otherwise it raises OverflowError, and nothing else. Empty objects, null
  values and missing keys are all covered by the shape.
\<close>

theorem shape_priced_when_in_range:
  assumes "documented_shape data"
  shows "\<exists>t. extract_measurement data = Inr t \<and>
           (if magnitudes_fit t then \<exists>r. computeEstimate B data = Inr r
            else computeEstimate B data = Inl OverflowError)"
proof -
  from extract_shape [OF assms] obtain t where t: "extract_measurement data = Inr t"
    and s: "is_number (eave_linear_ft t)" "is_int (downspouts t)" "is_int (miters_inside t)"
      "is_int (miters_outside t)" "stories_shape (stories_by_direction t)"
    by blast
  from bump_story_shape [OF s(5)] obtain q where q: "bump_story default_pricing t = Inr q" ..
  have e: "computeEstimate B data =
      and_then (compute_figures B q t) (\<lambda>f. Inr (build_estimate q t f))"
    by (simp add: computeEstimate_def estimate_with_def price_def and_then_def t q)
  from compute_figures_shape [OF s(1-4), of B q]
  have "if magnitudes_fit t then \<exists>r. computeEstimate B data = Inr r
        else computeEstimate B data = Inl OverflowError"
    unfolding e by (auto simp: and_then_def split: if_splits)
  with t show ?thesis by blast
qed

theorem shape_priced_when_in_range_witness:
  "documented_shape scenario_payload \<and>
   (\<exists>t r. extract_measurement scenario_payload = Inr t \<and> magnitudes_fit t \<and>
      computeEstimate no_strings scenario_payload = Inr r) \<and>
   documented_shape huge_count_payload \<and>
   (\<exists>t. extract_measurement huge_count_payload = Inr t \<and> \<not> magnitudes_fit t \<and>
      computeEstimate no_strings huge_count_payload = Inl OverflowError)"
proof -
  have s1: "documented_shape scenario_payload"
    by (simp add: scenario_payload_def opt_field_def)
  have s2: "documented_shape huge_count_payload"
    by (simp add: huge_count_payload_def opt_field_def)
  have x1: "extract_measurement scenario_payload = Inr scenario_measurement"
    by (simp add: extract_measurement_def and_then_def py_get_def py_or_def
        scenario_payload_def scenario_measurement_def)
  have x2: "extract_measurement huge_count_payload =
      Inr (default_measurement\<lparr>downspouts := JInt (2 ^ 1024)\<rparr>)"
    by (simp add: extract_measurement_def and_then_def py_get_def py_or_def
        huge_count_payload_def default_measurement_def)
  have m1: "magnitudes_fit scenario_measurement"
    by (simp add: magnitudes_fit_def scenario_measurement_def fits_float_small)
  have m2: "\<not> magnitudes_fit (default_measurement\<lparr>downspouts := JInt (2 ^ 1024)\<rparr>)"
    by (simp add: magnitudes_fit_def default_measurement_def fits_float_def)
  from shape_priced_when_in_range [OF s1, of no_strings] x1 m1
  have a: "\<exists>t r. extract_measurement scenario_payload = Inr t \<and> magnitudes_fit t \<and>
      computeEstimate no_strings scenario_payload = Inr r"
    by auto
  from shape_priced_when_in_range [OF s2, of no_strings] x2 m2
  have b: "\<exists>t. extract_measurement huge_count_payload = Inr t \<and> \<not> magnitudes_fit t \<and>
      computeEstimate no_strings huge_count_payload = Inl OverflowError"
    by auto
  from s1 a s2 b show ?thesis by blast
qed

end
